theory Spec2Isabelle
  imports Main
begin

section \<open>Data model\<close>

text \<open>
  The orchestrators of \<^verbatim>\<open>spateo/alignment/morpho_alignment.py\<close> work on AnnData
  objects. They copy every input object, then mutate the copies in place (the \<^verbatim>\<open>obsm\<close>
  and \<^verbatim>\<open>uns\<close> dictionaries). Objects therefore live in an explicit store: an address
  is an index into the list of allocated objects, and \<^verbatim>\<open>model.copy()\<close> allocates a new
  address. Arrays are never written in place by the orchestrators, so an array is a value.
\<close>

text \<open>A two-dimensional numpy array: its shape and its entries.\<close>

datatype 'a ndarray = NdArray (nrows: nat) (ncols: nat) (entry: "nat \<Rightarrow> nat \<Rightarrow> 'a")

text \<open>The attribute \<^verbatim>\<open>.T\<close> of a two-dimensional array.\<close>

fun T :: "'a ndarray \<Rightarrow> 'a ndarray" where
  "T (NdArray r c f) = NdArray c r (\<lambda>i j. f j i)"

text \<open>
  A value stored in \<^verbatim>\<open>uns\<close>: the per-iteration trace of a registration, a fitted vector
  field, or anything else the caller has put there.
\<close>

datatype ('it, 'vf, 'x) uns_value = IterTrace 'it | VecFld 'vf | Meta 'x

text \<open>
  An AnnData object: the number of points, the named coordinate arrays \<^verbatim>\<open>obsm\<close>, the
  unstructured annotations \<^verbatim>\<open>uns\<close>, and the rest (expression matrix, layers, variable
  names), which the orchestrators never touch.
\<close>

record ('a, 'it, 'vf, 'x) anndata =
  n_obs :: nat
  obsm :: "string \<rightharpoonup> 'a ndarray"
  uns :: "string \<rightharpoonup> ('it, 'vf, 'x) uns_value"
  content :: 'x

type_synonym addr = nat

type_synonym ('a, 'it, 'vf, 'x) heap = "('a, 'it, 'vf, 'x) anndata list"

text \<open>
  The arguments of both orchestrators. \<^verbatim>\<open>engine_opts\<close> stands for the arguments that are
  only handed on to the registration engine (\<^verbatim>\<open>rep_layer\<close>, \<^verbatim>\<open>rep_field\<close>, \<^verbatim>\<open>genes\<close>,
  \<^verbatim>\<open>dissimilarity\<close>, \<^verbatim>\<open>max_iter\<close>, \<^verbatim>\<open>verbose\<close>, \<^verbatim>\<open>**kwargs\<close>). \<^verbatim>\<open>n_sampling\<close> and
  \<^verbatim>\<open>sampling_method\<close> are used by \<^verbatim>\<open>morpho_align_ref\<close> only.
\<close>

record 'k config =
  n_sampling :: "nat option"
  sampling_method :: string
  spatial_key :: string
  key_added :: string
  iter_key_added :: "string option"
  vecfld_key_added :: "string option"
  mode :: string
  dtype :: string
  device :: string
  engine_opts :: 'k

text \<open>The keyword arguments that \<^verbatim>\<open>Morpho_pairwise\<close> receives.\<close>

record 'k pairwise_args =
  pw_opts :: 'k
  pw_spatial_key :: string
  pw_key_added :: string
  pw_iter_key_added :: "string option"
  pw_vecfld_key_added :: "string option"
  pw_dtype :: string
  pw_device :: string

text \<open>
  What the orchestrators read from a \<^verbatim>\<open>Morpho_pairwise\<close> object after \<^verbatim>\<open>run()\<close>: the
  returned matrix \<^verbatim>\<open>P\<close> and the attributes \<^verbatim>\<open>optimal_RnA\<close>, \<^verbatim>\<open>XAHat\<close>, \<^verbatim>\<open>iter_added\<close>,
  \<^verbatim>\<open>vecfld\<close>.
\<close>

record ('a, 'it, 'vf) alignment_result =
  P :: "'a ndarray"
  optimal_RnA :: "'a ndarray"
  XAHat :: "'a ndarray"
  iter_added :: 'it
  vecfld :: 'vf

text \<open>
  Exceptions. \<^verbatim>\<open>KeyError\<close> and \<^verbatim>\<open>IndexError\<close> are raised by the orchestrators' own
  dictionary and list accesses; \<open>Raised e\<close> is an exception \<open>e\<close> of a collaborator
  (registration engine, field evaluator, downsampling), which the orchestrators do not catch.
\<close>

datatype 'e error = KeyError string | IndexError | Raised 'e

text \<open>
  The calls to collaborators, in the order in which they are made. A registration is
  recorded with its arguments, the addresses of the moving and of the fixed sample, and
  the two objects as they are when the call is made.
\<close>

datatype ('a, 'it, 'vf, 'x, 'k) event =
    Register "'k pairwise_args" addr addr
      "('a, 'it, 'vf, 'x) anndata" "('a, 'it, 'vf, 'x) anndata"
  | Empty_cache string
  | Transform 'vf "'a ndarray" string string
  | Downsampling "('a, 'it, 'vf, 'x) anndata list" "nat option" string string

section \<open>Collaborators\<close>

text \<open>
  The module imports \<^verbatim>\<open>Morpho_pairwise\<close>, \<^verbatim>\<open>empty_cache\<close>, \<^verbatim>\<open>BA_transform\<close>,
  \<^verbatim>\<open>downsampling\<close> and \<^verbatim>\<open>_iteration\<close> from other modules of the package. The first four
  are parameters of the model:
  \<^item> the engine \<open>eng args moving fixed\<close> returns an alignment result or raises; it does
    not mutate its two samples;
  \<^item> the evaluator \<open>tr vf query device dtype\<close> returns the triple
    (non-rigid coordinates, displacement, rigid coordinates) or raises;
  \<^item> the downsampler \<open>ds models n method key\<close> returns the landmark samples or raises;
  \<^item> \<^verbatim>\<open>empty_cache\<close> has no result and is recorded as an event.
\<close>

type_synonym ('a, 'it, 'vf, 'x, 'k, 'e) engine =
  "'k pairwise_args \<Rightarrow> ('a, 'it, 'vf, 'x) anndata \<Rightarrow> ('a, 'it, 'vf, 'x) anndata
     \<Rightarrow> 'e + ('a, 'it, 'vf) alignment_result"

type_synonym ('a, 'vf, 'e) evaluator =
  "'vf \<Rightarrow> 'a ndarray \<Rightarrow> string \<Rightarrow> string \<Rightarrow> 'e + ('a ndarray \<times> 'a ndarray \<times> 'a ndarray)"

type_synonym ('a, 'it, 'vf, 'x, 'e) downsampler =
  "('a, 'it, 'vf, 'x) anndata list \<Rightarrow> nat option \<Rightarrow> string \<Rightarrow> string
     \<Rightarrow> 'e + ('a, 'it, 'vf, 'x) anndata list"

text \<open>
  Modelled from the spec: \<^verbatim>\<open>_iteration(n, progress_name, verbose)\<close> is not among the
  sources. The orchestrator walks the adjacent pairs \<open>0 .. N-2\<close> in increasing order, so
  \<^verbatim>\<open>_iteration(n)\<close> yields \<open>0, \<dots>, n-1\<close> (nothing when \<open>n \<le> 0\<close>); the progress
  display is left out.
\<close>

definition iteration :: "nat \<Rightarrow> nat list" where
  "iteration n = [0..<n]"

section \<open>Shared steps\<close>

text \<open>\<^verbatim>\<open>[model.copy() for model in models]\<close>: one new object per list element.\<close>

definition copy_models ::
  "addr list \<Rightarrow> ('a, 'it, 'vf, 'x) heap \<Rightarrow> addr list \<times> ('a, 'it, 'vf, 'x) heap" where
  "copy_models ms h = ([length h..<length h + length ms], h @ map (\<lambda>m. h ! m) ms)"

text \<open>Allocation of objects that a collaborator returns.\<close>

definition alloc_models ::
  "('a, 'it, 'vf, 'x) anndata list \<Rightarrow> ('a, 'it, 'vf, 'x) heap
     \<Rightarrow> addr list \<times> ('a, 'it, 'vf, 'x) heap" where
  "alloc_models vs h = ([length h..<length h + length vs], h @ vs)"

definition rigid_key :: "string \<Rightarrow> string" where
  "rigid_key k = k @ ''_rigid''"

definition nonrigid_key :: "string \<Rightarrow> string" where
  "nonrigid_key k = k @ ''_nonrigid''"

text \<open>\<^verbatim>\<open>m.obsm[dst] = m.obsm[src]\<close>, for a key \<open>src\<close> that is present.\<close>

definition obsm_assign ::
  "string \<Rightarrow> string \<Rightarrow> ('a, 'it, 'vf, 'x) anndata \<Rightarrow> ('a, 'it, 'vf, 'x) anndata" where
  "obsm_assign dst src m = m\<lparr>obsm := (obsm m)(dst := obsm m src)\<rparr>"

definition obsm_set ::
  "string \<Rightarrow> 'a ndarray \<Rightarrow> ('a, 'it, 'vf, 'x) anndata \<Rightarrow> ('a, 'it, 'vf, 'x) anndata" where
  "obsm_set k v m = m\<lparr>obsm := (obsm m)(k \<mapsto> v)\<rparr>"

definition uns_set ::
  "string \<Rightarrow> ('it, 'vf, 'x) uns_value \<Rightarrow> ('a, 'it, 'vf, 'x) anndata
     \<Rightarrow> ('a, 'it, 'vf, 'x) anndata" where
  "uns_set k v m = m\<lparr>uns := (uns m)(k \<mapsto> v)\<rparr>"

text \<open>
  The three assignments at the head of both orchestrators: the working, the rigid and the
  non-rigid slot each receive a copy of \<^verbatim>\<open>obsm[spatial_key]\<close>. Each assignment reads
  the dictionary again, after the one before it.
\<close>

definition set_initial ::
  "'k config \<Rightarrow> ('a, 'it, 'vf, 'x) anndata \<Rightarrow> ('a, 'it, 'vf, 'x) anndata" where
  "set_initial cfg m =
     obsm_assign (nonrigid_key (key_added cfg)) (spatial_key cfg)
       (obsm_assign (rigid_key (key_added cfg)) (spatial_key cfg)
         (obsm_assign (key_added cfg) (spatial_key cfg) m))"

text \<open>
  \<^verbatim>\<open>for m in align_models: ...\<close>. The first read of \<^verbatim>\<open>m.obsm[spatial_key]\<close> raises
  \<^verbatim>\<open>KeyError\<close> when the key is absent; the objects before \<open>m\<close> have been written by then.
\<close>

fun init_coords ::
  "'k config \<Rightarrow> addr list \<Rightarrow> ('a, 'it, 'vf, 'x) heap
     \<Rightarrow> 'e error option \<times> ('a, 'it, 'vf, 'x) heap" where
  "init_coords cfg [] h = (None, h)"
| "init_coords cfg (m # ms) h =
     (case obsm (h ! m) (spatial_key cfg) of
        None \<Rightarrow> (Some (KeyError (spatial_key cfg)), h)
      | Some v \<Rightarrow> init_coords cfg ms (h[m := set_initial cfg (h ! m)]))"

text \<open>
  \<^verbatim>\<open>if mode == "SN-S": ... elif mode == "SN-N": ...\<close>: the working slot becomes the rigid
  or the non-rigid slot; with any other string nothing is assigned.
\<close>

definition select_mode ::
  "'k config \<Rightarrow> ('a, 'it, 'vf, 'x) anndata \<Rightarrow> ('a, 'it, 'vf, 'x) anndata" where
  "select_mode cfg m =
     (if mode cfg = ''SN-S'' then obsm_assign (key_added cfg) (rigid_key (key_added cfg)) m
      else if mode cfg = ''SN-N'' then
        obsm_assign (key_added cfg) (nonrigid_key (key_added cfg)) m
      else m)"

text \<open>
  \<^verbatim>\<open>if iter_key_added is not None: m.uns[iter_key_added] = morpho_model.iter_added\<close>
  and the same for the vector field, in this order.
\<close>

definition save_uns ::
  "'k config \<Rightarrow> ('a, 'it, 'vf) alignment_result \<Rightarrow> ('a, 'it, 'vf, 'x) anndata
     \<Rightarrow> ('a, 'it, 'vf, 'x) anndata" where
  "save_uns cfg r m =
     (let m1 = (case iter_key_added cfg of
                  None \<Rightarrow> m | Some k \<Rightarrow> uns_set k (IterTrace (iter_added r)) m)
      in case vecfld_key_added cfg of
           None \<Rightarrow> m1 | Some k \<Rightarrow> uns_set k (VecFld (vecfld r)) m1)"

text \<open>The keyword arguments of the call \<^verbatim>\<open>Morpho_pairwise(...)\<close>.\<close>

definition engine_args :: "'k config \<Rightarrow> 'k pairwise_args" where
  "engine_args cfg =
     \<lparr>pw_opts = engine_opts cfg,
      pw_spatial_key = key_added cfg,
      pw_key_added = key_added cfg,
      pw_iter_key_added = iter_key_added cfg,
      pw_vecfld_key_added = vecfld_key_added cfg,
      pw_dtype = dtype cfg,
      pw_device = device cfg\<rparr>"

text \<open>A loop whose body may raise: the first exception ends it, with the state reached.\<close>

fun for_each ::
  "(nat \<Rightarrow> 's \<Rightarrow> 'e option \<times> 's) \<Rightarrow> nat list \<Rightarrow> 's \<Rightarrow> 'e option \<times> 's" where
  "for_each body [] s = (None, s)"
| "for_each body (i # js) s =
     (case body i s of
        (Some e, s') \<Rightarrow> (Some e, s')
      | (None, s') \<Rightarrow> for_each body js s')"

section \<open>The sequential orchestrator\<close>

text \<open>The state of the loop of \<^verbatim>\<open>morpho_align\<close>.\<close>

record ('a, 'it, 'vf, 'x, 'k) seq_state =
  heap :: "('a, 'it, 'vf, 'x) heap"
  log :: "('a, 'it, 'vf, 'x, 'k) event list"
  pis :: "'a ndarray list"

text \<open>
  Lines 94 to 104: what one pair writes on the later sample \<^verbatim>\<open>modelB\<close>.
\<close>

definition attach ::
  "'k config \<Rightarrow> ('a, 'it, 'vf) alignment_result \<Rightarrow> ('a, 'it, 'vf, 'x) anndata
     \<Rightarrow> ('a, 'it, 'vf, 'x) anndata" where
  "attach cfg r m =
     save_uns cfg r
       (select_mode cfg
         (obsm_set (nonrigid_key (key_added cfg)) (XAHat r)
           (obsm_set (rigid_key (key_added cfg)) (optimal_RnA r) m)))"

text \<open>
  The body of the loop, lines 73 to 106. The engine is called with the later sample as
  \<^verbatim>\<open>sampleA\<close> and the earlier one as \<^verbatim>\<open>sampleB\<close>; \<^verbatim>\<open>P.T\<close> is appended to \<^verbatim>\<open>pis\<close>;
  \<^verbatim>\<open>empty_cache\<close> is the last statement.
\<close>

definition align_step ::
  "('a, 'it, 'vf, 'x, 'k, 'e) engine \<Rightarrow> 'k config \<Rightarrow> addr list \<Rightarrow> nat
     \<Rightarrow> ('a, 'it, 'vf, 'x, 'k) seq_state
     \<Rightarrow> 'e error option \<times> ('a, 'it, 'vf, 'x, 'k) seq_state" where
  "align_step eng cfg am i s =
     (let a = am ! i;
          b = am ! (i + 1);
          modelA = heap s ! a;
          modelB = heap s ! b;
          s1 = s\<lparr>log := log s @ [Register (engine_args cfg) b a modelB modelA]\<rparr>
      in case eng (engine_args cfg) modelB modelA of
           Inl e \<Rightarrow> (Some (Raised e), s1)
         | Inr r \<Rightarrow>
             (None,
              s1\<lparr>heap := (heap s1)[b := attach cfg r modelB],
                 pis := pis s1 @ [T (P r)],
                 log := log s1 @ [Empty_cache (device cfg)]\<rparr>))"

text \<open>
  \<^verbatim>\<open>morpho_align\<close>. The result is the exception or the pair
  \<^verbatim>\<open>(align_models, pis)\<close>, together with the store and the collaborator calls.
\<close>

definition morpho_align ::
  "('a, 'it, 'vf, 'x, 'k, 'e) engine \<Rightarrow> 'k config \<Rightarrow> addr list \<Rightarrow> ('a, 'it, 'vf, 'x) heap
     \<Rightarrow> ('e error + addr list \<times> 'a ndarray list) \<times> ('a, 'it, 'vf, 'x) heap
          \<times> ('a, 'it, 'vf, 'x, 'k) event list" where
  "morpho_align eng cfg models h =
     (case copy_models models h of
        (align_models, h1) \<Rightarrow>
          (case init_coords cfg align_models h1 of
             (Some e, h2) \<Rightarrow> (Inl e, h2, [])
           | (None, h2) \<Rightarrow>
               (case for_each (align_step eng cfg align_models)
                       (iteration (length align_models - 1))
                       \<lparr>heap = h2, log = [], pis = []\<rparr> of
                  (Some e, s) \<Rightarrow> (Inl e, heap s, log s)
                | (None, s) \<Rightarrow> (Inr (align_models, pis s), heap s, log s))))"

section \<open>The reference orchestrator\<close>

text \<open>
  The state of the loop of \<^verbatim>\<open>morpho_align_ref\<close>: the list \<^verbatim>\<open>align_models_ref\<close> is
  assigned to inside the loop, and there are two lists of matrices.
\<close>

record ('a, 'it, 'vf, 'x, 'k) ref_state = "('a, 'it, 'vf, 'x, 'k) seq_state" +
  align_models_ref :: "addr list"
  pis_ref :: "'a ndarray list"

text \<open>A write on the object at an address.\<close>

definition upd_obj ::
  "addr \<Rightarrow> (('a, 'it, 'vf, 'x) anndata \<Rightarrow> ('a, 'it, 'vf, 'x) anndata)
     \<Rightarrow> ('a, 'it, 'vf, 'x) heap \<Rightarrow> ('a, 'it, 'vf, 'x) heap" where
  "upd_obj a f h = h[a := f (h ! a)]"

text \<open>
  Lines 229 to 234: the trace and the field are stored on the landmark sample and on the
  full-resolution sample.
\<close>

definition save_uns_ref ::
  "'k config \<Rightarrow> ('a, 'it, 'vf) alignment_result \<Rightarrow> addr \<Rightarrow> addr
     \<Rightarrow> ('a, 'it, 'vf, 'x) heap \<Rightarrow> ('a, 'it, 'vf, 'x) heap" where
  "save_uns_ref cfg r b_ref b h =
     (let h1 = (case iter_key_added cfg of
                  None \<Rightarrow> h
                | Some k \<Rightarrow>
                    upd_obj b (uns_set k (IterTrace (iter_added r)))
                      (upd_obj b_ref (uns_set k (IterTrace (iter_added r))) h))
      in case vecfld_key_added cfg of
           None \<Rightarrow> h1
         | Some k \<Rightarrow>
             upd_obj b (uns_set k (VecFld (vecfld r)))
               (upd_obj b_ref (uns_set k (VecFld (vecfld r))) h1))"

text \<open>Lines 215 to 221: what one pair writes into \<^verbatim>\<open>obsm\<close> of the later landmark sample.\<close>

definition attach_ref ::
  "'k config \<Rightarrow> ('a, 'it, 'vf) alignment_result \<Rightarrow> ('a, 'it, 'vf, 'x) anndata
     \<Rightarrow> ('a, 'it, 'vf, 'x) anndata" where
  "attach_ref cfg r m =
     select_mode cfg
       (obsm_set (nonrigid_key (key_added cfg)) (XAHat r)
         (obsm_set (rigid_key (key_added cfg)) (optimal_RnA r) m))"

text \<open>
  Lines 253 to 262: the result of \<^verbatim>\<open>BA_transform\<close> is unpacked from left to right
  (non-rigid slot, ignored displacement, rigid slot), then the mode is applied.
\<close>

definition attach_full ::
  "'k config \<Rightarrow> 'a ndarray \<Rightarrow> 'a ndarray \<Rightarrow> ('a, 'it, 'vf, 'x) anndata
     \<Rightarrow> ('a, 'it, 'vf, 'x) anndata" where
  "attach_full cfg nonrigid rigid m =
     select_mode cfg
       (obsm_set (rigid_key (key_added cfg)) rigid
         (obsm_set (nonrigid_key (key_added cfg)) nonrigid m))"

text \<open>
  The body of the loop, lines 194 to 264. \<^verbatim>\<open>align_models_ref[i]\<close> and
  \<^verbatim>\<open>align_models_ref[i + 1]\<close> raise \<^verbatim>\<open>IndexError\<close> when the reference list is too
  short; the body contains no call of \<^verbatim>\<open>empty_cache\<close>; \<^verbatim>\<open>P\<close> is appended to both lists
  as the engine returned it.
\<close>

definition ref_step ::
  "('a, 'it, 'vf, 'x, 'k, 'e) engine \<Rightarrow> ('a, 'vf, 'e) evaluator \<Rightarrow> 'k config \<Rightarrow> addr list
     \<Rightarrow> nat \<Rightarrow> ('a, 'it, 'vf, 'x, 'k) ref_state
     \<Rightarrow> 'e error option \<times> ('a, 'it, 'vf, 'x, 'k) ref_state" where
  "ref_step eng tr cfg am i s =
     (if length (align_models_ref s) \<le> i + 1 then (Some IndexError, s)
      else
        let a_ref = align_models_ref s ! i;
            b_ref = align_models_ref s ! (i + 1);
            modelA_ref = heap s ! a_ref;
            modelB_ref = heap s ! b_ref;
            s1 = s\<lparr>log := log s @ [Register (engine_args cfg) b_ref a_ref modelB_ref modelA_ref]\<rparr>
        in case eng (engine_args cfg) modelB_ref modelA_ref of
             Inl e \<Rightarrow> (Some (Raised e), s1)
           | Inr r \<Rightarrow>
               let s2 = s1\<lparr>heap := upd_obj b_ref (attach_ref cfg r) (heap s1),
                           align_models_ref := (align_models_ref s1)[i + 1 := b_ref],
                           pis_ref := pis_ref s1 @ [P r]\<rparr>;
                   b = am ! (i + 1);
                   s3 = s2\<lparr>heap := save_uns_ref cfg r b_ref b (heap s2)\<rparr>
               in case obsm (heap s3 ! b) (key_added cfg) of
                    None \<Rightarrow> (Some (KeyError (key_added cfg)), s3)
                  | Some q \<Rightarrow>
                      let s4 = s3\<lparr>log := log s3
                                    @ [Transform (vecfld r) q (device cfg) (dtype cfg)]\<rparr>
                      in case tr (vecfld r) q (device cfg) (dtype cfg) of
                           Inl e \<Rightarrow> (Some (Raised e), s4)
                         | Inr (nonrigid, d, rigid) \<Rightarrow>
                             (None,
                              s4\<lparr>heap := upd_obj b (attach_full cfg nonrigid rigid) (heap s4),
                                 pis := pis s4 @ [P r]\<rparr>))"

text \<open>
  Lines 169 to 176: without a reference list, the inputs are copied and the copies are
  handed to \<^verbatim>\<open>downsampling\<close>, whose results are new objects.
\<close>

definition make_reference ::
  "('a, 'it, 'vf, 'x, 'e) downsampler \<Rightarrow> 'k config \<Rightarrow> addr list \<Rightarrow> addr list option
     \<Rightarrow> ('a, 'it, 'vf, 'x) heap
     \<Rightarrow> ('e error + addr list) \<times> ('a, 'it, 'vf, 'x) heap
          \<times> ('a, 'it, 'vf, 'x, 'k) event list" where
  "make_reference ds cfg models models_ref h =
     (case models_ref of
        Some mr \<Rightarrow> (Inr mr, h, [])
      | None \<Rightarrow>
          (case copy_models models h of
             (models_sampling, h1) \<Rightarrow>
               let vs = map (\<lambda>m. h1 ! m) models_sampling;
                   ev = Downsampling vs (n_sampling cfg) (sampling_method cfg) (spatial_key cfg)
               in case ds vs (n_sampling cfg) (sampling_method cfg) (spatial_key cfg) of
                    Inl e \<Rightarrow> (Inl (Raised e), h1, [ev])
                  | Inr ls \<Rightarrow>
                      (case alloc_models ls h1 of (mr, h2) \<Rightarrow> (Inr mr, h2, [ev]))))"

text \<open>
  \<^verbatim>\<open>morpho_align_ref\<close>. The result is the exception or the tuple
  \<^verbatim>\<open>(align_models, align_models_ref, pis, pis_ref)\<close>.
\<close>

definition morpho_align_ref ::
  "('a, 'it, 'vf, 'x, 'k, 'e) engine \<Rightarrow> ('a, 'vf, 'e) evaluator
     \<Rightarrow> ('a, 'it, 'vf, 'x, 'e) downsampler \<Rightarrow> 'k config \<Rightarrow> addr list \<Rightarrow> addr list option
     \<Rightarrow> ('a, 'it, 'vf, 'x) heap
     \<Rightarrow> ('e error + addr list \<times> addr list \<times> 'a ndarray list \<times> 'a ndarray list)
          \<times> ('a, 'it, 'vf, 'x) heap \<times> ('a, 'it, 'vf, 'x, 'k) event list" where
  "morpho_align_ref eng tr ds cfg models models_ref h =
     (case make_reference ds cfg models models_ref h of
        (Inl e, h1, lg) \<Rightarrow> (Inl e, h1, lg)
      | (Inr mr, h1, lg) \<Rightarrow>
          (case copy_models models h1 of
             (align_models, h2) \<Rightarrow>
               (case init_coords cfg align_models h2 of
                  (Some e, h3) \<Rightarrow> (Inl e, h3, lg)
                | (None, h3) \<Rightarrow>
                    (case copy_models mr h3 of
                       (amr, h4) \<Rightarrow>
                         (case init_coords cfg amr h4 of
                            (Some e, h5) \<Rightarrow> (Inl e, h5, lg)
                          | (None, h5) \<Rightarrow>
                              (case for_each (ref_step eng tr cfg align_models)
                                      (iteration (length align_models - 1))
                                      \<lparr>heap = h5, log = lg, pis = [],
                                       align_models_ref = amr, pis_ref = []\<rparr> of
                                 (Some e, s) \<Rightarrow> (Inl e, heap s, log s)
                               | (None, s) \<Rightarrow>
                                   (Inr (align_models, align_models_ref s, pis s, pis_ref s),
                                    heap s, log s)))))))"


section \<open>Invariant of the sequential loop\<close>

text \<open>
  The collaborator calls of the first \<open>i\<close> pairs of \<^verbatim>\<open>morpho_align\<close>, when the copies
  start at address \<open>n0\<close>, \<open>h2\<close> is the store before the loop and \<open>hf\<close> the current one.
\<close>

definition seq_events ::
  "'k config \<Rightarrow> nat \<Rightarrow> ('a, 'it, 'vf, 'x) heap \<Rightarrow> ('a, 'it, 'vf, 'x) heap \<Rightarrow> nat
     \<Rightarrow> ('a, 'it, 'vf, 'x, 'k) event list" where
  "seq_events cfg n0 h2 hf i =
     concat (map (\<lambda>j. [Register (engine_args cfg) (n0 + j + 1) (n0 + j)
                          (h2 ! (n0 + j + 1)) (hf ! (n0 + j)),
                        Empty_cache (device cfg)]) [0..<i])"

text \<open>
  What holds before pair \<open>i\<close> is processed: only the copies \<open>1 .. i\<close> have been written,
  and each of them carries the result of the registration against its predecessor.
\<close>

definition seq_inv ::
  "('a, 'it, 'vf, 'x, 'k, 'e) engine \<Rightarrow> 'k config \<Rightarrow> nat \<Rightarrow> ('a, 'it, 'vf, 'x) heap \<Rightarrow> nat
     \<Rightarrow> ('a, 'it, 'vf, 'x, 'k) seq_state \<Rightarrow> bool" where
  "seq_inv eng cfg n0 h2 i s \<longleftrightarrow>
     length (heap s) = length h2
     \<and> (\<forall>a. a \<le> n0 \<or> n0 + i < a \<longrightarrow> heap s ! a = h2 ! a)
     \<and> log s = seq_events cfg n0 h2 (heap s) i
     \<and> length (pis s) = i
     \<and> (\<forall>j < i. \<exists>r. eng (engine_args cfg) (h2 ! (n0 + j + 1)) (heap s ! (n0 + j)) = Inr r
            \<and> heap s ! (n0 + j + 1) = attach cfg r (h2 ! (n0 + j + 1))
            \<and> pis s ! j = T (P r))"

section \<open>Invariant of the reference loop\<close>

text \<open>
  The collaborator calls of pair \<open>j\<close> of \<^verbatim>\<open>morpho_align_ref\<close>, when the copies of the
  full-resolution samples start at address \<open>n1\<close> and the copies of the landmark samples at
  address \<open>n2\<close>: the registration of the landmark pair, then the evaluation of its field.
\<close>

definition ref_pair_events ::
  "('a, 'it, 'vf, 'x, 'k, 'e) engine \<Rightarrow> 'k config \<Rightarrow> nat \<Rightarrow> nat \<Rightarrow> ('a, 'it, 'vf, 'x) heap
     \<Rightarrow> ('a, 'it, 'vf, 'x) heap \<Rightarrow> nat \<Rightarrow> ('a, 'it, 'vf, 'x, 'k) event list" where
  "ref_pair_events eng cfg n1 n2 h5 hf j =
     Register (engine_args cfg) (n2 + j + 1) (n2 + j) (h5 ! (n2 + j + 1)) (hf ! (n2 + j))
     # (case eng (engine_args cfg) (h5 ! (n2 + j + 1)) (hf ! (n2 + j)) of
          Inl e \<Rightarrow> []
        | Inr r \<Rightarrow>
            (case obsm (h5 ! (n1 + j + 1)) (key_added cfg) of
               None \<Rightarrow> []
             | Some q \<Rightarrow> [Transform (vecfld r) q (device cfg) (dtype cfg)]))"

definition ref_events ::
  "('a, 'it, 'vf, 'x, 'k, 'e) engine \<Rightarrow> 'k config \<Rightarrow> nat \<Rightarrow> nat \<Rightarrow> ('a, 'it, 'vf, 'x) heap
     \<Rightarrow> ('a, 'it, 'vf, 'x) heap \<Rightarrow> nat \<Rightarrow> ('a, 'it, 'vf, 'x, 'k) event list" where
  "ref_events eng cfg n1 n2 h5 hf i =
     concat (map (ref_pair_events eng cfg n1 n2 h5 hf) [0..<i])"

text \<open>
  What holds before pair \<open>i\<close> is processed: the list of landmark copies is unchanged, only
  the copies \<open>1 .. i\<close> of either list have been written, the landmark copy with the result
  of its registration and the full-resolution copy with the evaluation of the fitted field.
\<close>

definition ref_inv ::
  "('a, 'it, 'vf, 'x, 'k, 'e) engine \<Rightarrow> ('a, 'vf, 'e) evaluator \<Rightarrow> 'k config \<Rightarrow> nat \<Rightarrow> nat
     \<Rightarrow> nat \<Rightarrow> ('a, 'it, 'vf, 'x) heap \<Rightarrow> ('a, 'it, 'vf, 'x, 'k) event list \<Rightarrow> nat
     \<Rightarrow> ('a, 'it, 'vf, 'x, 'k) ref_state \<Rightarrow> bool" where
  "ref_inv eng tr cfg n1 n2 M h5 lg0 i s \<longleftrightarrow>
     length (heap s) = length h5
     \<and> align_models_ref s = [n2..<n2 + M]
     \<and> (\<forall>a. \<not> (n1 < a \<and> a \<le> n1 + i) \<and> \<not> (n2 < a \<and> a \<le> n2 + i) \<longrightarrow> heap s ! a = h5 ! a)
     \<and> log s = lg0 @ ref_events eng cfg n1 n2 h5 (heap s) i
     \<and> length (pis s) = i
     \<and> (i = 0 \<or> i < M)
     \<and> pis_ref s = pis s
     \<and> (\<forall>j < i. \<exists>r q nr d rg.
            eng (engine_args cfg) (h5 ! (n2 + j + 1)) (heap s ! (n2 + j)) = Inr r
          \<and> heap s ! (n2 + j + 1) = attach cfg r (h5 ! (n2 + j + 1))
          \<and> obsm (h5 ! (n1 + j + 1)) (key_added cfg) = Some q
          \<and> tr (vecfld r) q (device cfg) (dtype cfg) = Inr (nr, d, rg)
          \<and> heap s ! (n1 + j + 1) = attach_full cfg nr rg (save_uns cfg r (h5 ! (n1 + j + 1)))
          \<and> pis s ! j = P r)"

section \<open>The reference samples of a run\<close>

text \<open>
  The reference samples that \<^verbatim>\<open>morpho_align_ref\<close> copies: the objects of \<^verbatim>\<open>models_ref\<close>,
  or what \<^verbatim>\<open>downsampling\<close> returns for the input samples.
\<close>

definition reference_values ::
  "('a, 'it, 'vf, 'x, 'e) downsampler \<Rightarrow> 'k config \<Rightarrow> addr list \<Rightarrow> addr list option
     \<Rightarrow> ('a, 'it, 'vf, 'x) heap \<Rightarrow> 'e + ('a, 'it, 'vf, 'x) anndata list" where
  "reference_values ds cfg models models_ref h =
     (case models_ref of
        Some mr \<Rightarrow> Inr (map (\<lambda>m. h ! m) mr)
      | None \<Rightarrow>
          ds (map (\<lambda>m. h ! m) models) (n_sampling cfg) (sampling_method cfg) (spatial_key cfg))"

text \<open>The addresses in \<^verbatim>\<open>models_ref\<close> are addresses of allocated objects.\<close>

definition valid_refs :: "addr list option \<Rightarrow> ('a, 'it, 'vf, 'x) heap \<Rightarrow> bool" where
  "valid_refs models_ref h =
     (case models_ref of None \<Rightarrow> True | Some mr \<Rightarrow> list_all (\<lambda>m. m < length h) mr)"

section \<open>Example inputs\<close>

text \<open>The exceptions of the collaborators.\<close>

datatype engine_error = DimensionMismatch | EmptyInput | NumericalDegeneracy | IncompatibleField

text \<open>A sample of \<open>n\<close> points in the plane, all at \<open>(c, c)\<close>, with one coordinate slot.\<close>

definition ex_sample :: "nat \<Rightarrow> int \<Rightarrow> (int, nat, nat, unit) anndata" where
  "ex_sample n c =
     \<lparr>n_obs = n, obsm = [''spatial'' \<mapsto> NdArray n 2 (\<lambda>i j. c)], uns = Map.empty, content = ()\<rparr>"

definition ex_heap :: "(int, nat, nat, unit) heap" where
  "ex_heap = [ex_sample 2 0, ex_sample 1 5, ex_sample 3 7]"

text \<open>The default arguments of the orchestrators, for a given mode.\<close>

definition ex_cfg :: "string \<Rightarrow> unit config" where
  "ex_cfg md =
     \<lparr>n_sampling = Some 2000, sampling_method = ''trn'', spatial_key = ''spatial'',
      key_added = ''align_spatial'', iter_key_added = Some ''iter_spatial'',
      vecfld_key_added = Some ''VecFld_morpho'', mode = md, dtype = ''float32'',
      device = ''cpu'', engine_opts = ()\<rparr>"

text \<open>
  An engine for the examples. Its matrix has one row per point of the moving sample and
  one column per point of the fixed sample; its coordinates depend on the working
  coordinates of the fixed sample.
\<close>

definition ex_eng :: "(int, nat, nat, unit, unit, engine_error) engine" where
  "ex_eng args B A =
     (let c = (case obsm A (pw_spatial_key args) of None \<Rightarrow> 0 | Some ca \<Rightarrow> entry ca 0 0)
      in Inr \<lparr>P = NdArray (n_obs B) (n_obs A) (\<lambda>i j. 1),
              optimal_RnA = NdArray (n_obs B) 2 (\<lambda>i j. c + 1),
              XAHat = NdArray (n_obs B) 2 (\<lambda>i j. c + 2),
              iter_added = n_obs B, vecfld = n_obs A\<rparr>)"

text \<open>The same engine, raising on a sample without points.\<close>

definition ex_eng_strict :: "(int, nat, nat, unit, unit, engine_error) engine" where
  "ex_eng_strict args B A =
     (if n_obs B = 0 \<or> n_obs A = 0 then Inl EmptyInput else ex_eng args B A)"

text \<open>An evaluator and a downsampler for the examples.\<close>

definition ex_tr :: "(int, nat, engine_error) evaluator" where
  "ex_tr vf q dev dt =
     Inr (NdArray (nrows q) 2 (\<lambda>i j. entry q i j + int vf + 2),
          NdArray (nrows q) 2 (\<lambda>i j. int vf + 2),
          NdArray (nrows q) 2 (\<lambda>i j. entry q i j + int vf))"

definition ex_ds :: "(int, nat, nat, unit, engine_error) downsampler" where
  "ex_ds vs n method key =
     Inr (map (\<lambda>v. case n of None \<Rightarrow> v | Some k \<Rightarrow> v\<lparr>n_obs := min k (n_obs v)\<rparr>) vs)"

text \<open>A store whose second sample has no points.\<close>

definition ex_heap_empty :: "(int, nat, nat, unit) heap" where
  "ex_heap_empty = [ex_sample 2 0, ex_sample 0 5]"


section \<open>Basic facts\<close>

lemma rigid_key_neq [simp]: "rigid_key k \<noteq> k" "k \<noteq> rigid_key k"
  by (simp_all add: rigid_key_def)

lemma nonrigid_key_neq [simp]: "nonrigid_key k \<noteq> k" "k \<noteq> nonrigid_key k"
  by (simp_all add: nonrigid_key_def)

lemma rigid_nonrigid_neq [simp]:
  "rigid_key k \<noteq> nonrigid_key k" "nonrigid_key k \<noteq> rigid_key k"
  by (simp_all add: rigid_key_def nonrigid_key_def)

lemma T_T [simp]: "T (T m) = m"
  by (cases m) simp

lemma nrows_T [simp]: "nrows (T m) = ncols m"
  by (cases m) simp

lemma ncols_T [simp]: "ncols (T m) = nrows m"
  by (cases m) simp

lemma for_each_upt_rule:
  assumes "I i s" and "i \<le> n"
    and step: "\<And>j t t'. j < n \<Longrightarrow> I j t \<Longrightarrow> body j t = (None, t') \<Longrightarrow> I (Suc j) t'"
  shows "case for_each body [i..<n] s of
           (None, s') \<Rightarrow> I n s'
         | (Some e, s') \<Rightarrow> \<exists>j t. j < n \<and> I j t \<and> body j t = (Some e, s')"
  using assms(1,2)
proof (induction "n - i" arbitrary: i s)
  case 0
  then show ?case by simp
next
  case (Suc d)
  then have lt: "i < n" by simp
  then have upt: "[i..<n] = i # [Suc i..<n]" by (simp add: upt_conv_Cons)
  obtain r t where b: "body i s = (r, t)" by (cases "body i s")
  show ?case
  proof (cases r)
    case None
    have A: "I (Suc i) t" using step [OF lt Suc.prems(1)] b None by simp
    have B: "d = n - Suc i" using Suc.hyps(2) by simp
    have C: "Suc i \<le> n" using lt by simp
    note Suc.hyps(1) [OF B A C]
    then show ?thesis using b None upt by simp
  next
    case (Some e)
    then show ?thesis using b upt lt Suc.prems(1) by auto
  qed
qed

lemma copy_models_fst: "fst (copy_models ms h) = [length h..<length h + length ms]"
  by (simp add: copy_models_def)

lemma copy_models_snd: "snd (copy_models ms h) = h @ map (\<lambda>m. h ! m) ms"
  by (simp add: copy_models_def)

lemma obsm_set_initial:
  "obsm (set_initial cfg m) (key_added cfg) = obsm m (spatial_key cfg)"
  "obsm (set_initial cfg m) (rigid_key (key_added cfg)) = obsm m (spatial_key cfg)"
  "obsm (set_initial cfg m) (nonrigid_key (key_added cfg)) = obsm m (spatial_key cfg)"
  by (simp_all add: set_initial_def obsm_assign_def)

lemma obsm_set_initial_other:
  "k \<noteq> key_added cfg \<Longrightarrow> k \<noteq> rigid_key (key_added cfg) \<Longrightarrow> k \<noteq> nonrigid_key (key_added cfg)
    \<Longrightarrow> obsm (set_initial cfg m) k = obsm m k"
  by (simp add: set_initial_def obsm_assign_def)

lemma set_initial_rest [simp]:
  "uns (set_initial cfg m) = uns m"
  "n_obs (set_initial cfg m) = n_obs m"
  "content (set_initial cfg m) = content m"
  by (simp_all add: set_initial_def obsm_assign_def)

lemma init_coords_length: "init_coords cfg ms h = (r, h') \<Longrightarrow> length h' = length h"
  by (induction ms arbitrary: h) (auto split: option.splits)

lemma init_coords_frame: "init_coords cfg ms h = (r, h') \<Longrightarrow> a \<notin> set ms \<Longrightarrow> h' ! a = h ! a"
  by (induction ms arbitrary: h) (auto split: option.splits)

lemma init_coords_done:
  "distinct ms \<Longrightarrow> \<forall>m \<in> set ms. m < length h \<Longrightarrow> init_coords cfg ms h = (None :: 'e error option, h')
    \<Longrightarrow> m \<in> set ms \<Longrightarrow> h' ! m = set_initial cfg (h ! m) \<and> obsm (h ! m) (spatial_key cfg) \<noteq> None"
proof (induction ms arbitrary: h)
  case Nil
  then show ?case by simp
next
  case (Cons x xs)
  from Cons.prems(3) have "\<exists>v. obsm (h ! x) (spatial_key cfg) = Some v
      \<and> init_coords cfg xs (h[x := set_initial cfg (h ! x)]) = (None :: 'e error option, h')"
    by (auto split: option.splits)
  then obtain v where v: "obsm (h ! x) (spatial_key cfg) = Some v"
    and rec: "init_coords cfg xs (h[x := set_initial cfg (h ! x)]) = (None :: 'e error option, h')"
    by blast
  show ?case
  proof (cases "m = x")
    case True
    have "h' ! x = (h[x := set_initial cfg (h ! x)]) ! x"
      using init_coords_frame [OF rec, of x] Cons.prems(1) by simp
    then show ?thesis using True v Cons.prems(2) by simp
  next
    case False
    then have mx: "m \<in> set xs" using Cons.prems(4) by simp
    have "h' ! m = set_initial cfg ((h[x := set_initial cfg (h ! x)]) ! m)
        \<and> obsm ((h[x := set_initial cfg (h ! x)]) ! m) (spatial_key cfg) \<noteq> None"
      using Cons.IH [OF _ _ rec mx] Cons.prems(1,2) by simp
    then show ?thesis using False by simp
  qed
qed

lemma init_coords_succeeds:
  "distinct ms \<Longrightarrow> \<forall>m \<in> set ms. obsm (h ! m) (spatial_key cfg) \<noteq> None
    \<Longrightarrow> fst (init_coords cfg ms h :: 'e error option \<times> _) = None"
proof (induction ms arbitrary: h)
  case Nil
  then show ?case by simp
next
  case (Cons x xs)
  then obtain v where v: "obsm (h ! x) (spatial_key cfg) = Some v" by auto
  have "\<forall>m \<in> set xs. obsm ((h[x := set_initial cfg (h ! x)]) ! m) (spatial_key cfg) \<noteq> None"
  proof
    fix m assume m: "m \<in> set xs"
    then have "m \<noteq> x" using Cons.prems(1) by auto
    then show "obsm ((h[x := set_initial cfg (h ! x)]) ! m) (spatial_key cfg) \<noteq> None"
      using Cons.prems(2) m by simp
  qed
  then have "fst (init_coords cfg xs (h[x := set_initial cfg (h ! x)]) :: 'e error option \<times> _) = None"
    using Cons.IH [of "h[x := set_initial cfg (h ! x)]"] Cons.prems(1) by simp
  then show ?case using v by simp
qed

lemma init_coords_fails:
  "init_coords cfg ms h = (Some e, h') \<Longrightarrow> e = KeyError (spatial_key cfg)"
  by (induction ms arbitrary: h) (auto split: option.splits)

lemma obsm_save_uns [simp]: "obsm (save_uns cfg r m) = obsm m"
  by (simp add: save_uns_def uns_set_def Let_def split: option.splits)

lemma save_uns_rest [simp]:
  "n_obs (save_uns cfg r m) = n_obs m" "content (save_uns cfg r m) = content m"
  by (simp_all add: save_uns_def uns_set_def Let_def split: option.splits)

lemma uns_select_mode [simp]: "uns (select_mode cfg m) = uns m"
  by (simp add: select_mode_def obsm_assign_def)

lemma obsm_attach_rigid:
  "obsm (attach cfg r m) (rigid_key (key_added cfg)) = Some (optimal_RnA r)"
  by (simp add: attach_def select_mode_def obsm_assign_def obsm_set_def)

lemma obsm_attach_nonrigid:
  "obsm (attach cfg r m) (nonrigid_key (key_added cfg)) = Some (XAHat r)"
  by (simp add: attach_def select_mode_def obsm_assign_def obsm_set_def)

lemma obsm_attach_working:
  "obsm (attach cfg r m) (key_added cfg) =
     (if mode cfg = ''SN-S'' then Some (optimal_RnA r)
      else if mode cfg = ''SN-N'' then Some (XAHat r)
      else obsm m (key_added cfg))"
  by (simp add: attach_def select_mode_def obsm_assign_def obsm_set_def)

lemma obsm_attach_other:
  "k \<noteq> key_added cfg \<Longrightarrow> k \<noteq> rigid_key (key_added cfg) \<Longrightarrow> k \<noteq> nonrigid_key (key_added cfg)
    \<Longrightarrow> obsm (attach cfg r m) k = obsm m k"
  by (simp add: attach_def select_mode_def obsm_assign_def obsm_set_def)

lemma uns_attach: "uns (attach cfg r m) = uns (save_uns cfg r m)"
  by (simp add: attach_def save_uns_def uns_set_def obsm_set_def Let_def split: option.splits)

lemma seq_events_cong:
  "(\<And>j. j < i \<Longrightarrow> hf ! (n0 + j) = hf' ! (n0 + j))
    \<Longrightarrow> seq_events cfg n0 h2 hf i = seq_events cfg n0 h2 hf' i"
  unfolding seq_events_def by (rule arg_cong [where f = concat], rule map_cong) simp_all

lemma seq_events_Suc:
  "seq_events cfg n0 h2 hf (Suc i) =
     seq_events cfg n0 h2 hf i
       @ [Register (engine_args cfg) (n0 + i + 1) (n0 + i) (h2 ! (n0 + i + 1)) (hf ! (n0 + i)),
          Empty_cache (device cfg)]"
  by (simp add: seq_events_def)

lemma seq_inv_init: "seq_inv eng cfg n0 h2 0 \<lparr>heap = h2, log = [], pis = []\<rparr>"
  by (simp add: seq_inv_def seq_events_def)

lemma align_step_None:
  assumes inv: "seq_inv eng cfg n0 h2 i s"
    and i: "i + 1 < N" and len: "n0 + N \<le> length h2"
    and step: "align_step eng cfg [n0..<n0 + N] i s = (None, s')"
  shows "seq_inv eng cfg n0 h2 (Suc i) s'"
proof -
  have a: "[n0..<n0 + N] ! i = n0 + i" and b: "[n0..<n0 + N] ! (i + 1) = n0 + i + 1"
    using i by simp_all
  have B: "heap s ! (n0 + i + 1) = h2 ! (n0 + i + 1)"
    using inv by (simp add: seq_inv_def)
  have hl: "length (heap s) = length h2" using inv by (simp add: seq_inv_def)
  from step obtain r where r: "eng (engine_args cfg) (h2 ! (n0 + i + 1)) (heap s ! (n0 + i)) = Inr r"
    and s': "s' = s\<lparr>log := log s @ [Register (engine_args cfg) (n0 + i + 1) (n0 + i)
                                     (h2 ! (n0 + i + 1)) (heap s ! (n0 + i))],
                   heap := (heap s)[n0 + i + 1 := attach cfg r (h2 ! (n0 + i + 1))],
                   pis := pis s @ [T (P r)],
                   log := log s @ [Register (engine_args cfg) (n0 + i + 1) (n0 + i)
                                     (h2 ! (n0 + i + 1)) (heap s ! (n0 + i))]
                            @ [Empty_cache (device cfg)]\<rparr>"
    unfolding align_step_def a b B Let_def by (auto split: sum.splits)
  have heap': "heap s' = (heap s)[n0 + i + 1 := attach cfg r (h2 ! (n0 + i + 1))]"
    by (simp add: s')
  have same: "\<And>j. j \<le> i \<Longrightarrow> heap s' ! (n0 + j) = heap s ! (n0 + j)"
    by (simp add: heap')
  have new: "heap s' ! (n0 + i + 1) = attach cfg r (h2 ! (n0 + i + 1))"
    using hl len i by (simp add: heap')
  have 1: "length (heap s') = length h2" using hl by (simp add: heap')
  have 2: "\<forall>a. a \<le> n0 \<or> n0 + Suc i < a \<longrightarrow> heap s' ! a = h2 ! a"
    using inv by (auto simp: seq_inv_def heap')
  have "seq_events cfg n0 h2 (heap s') i = seq_events cfg n0 h2 (heap s) i"
    by (rule seq_events_cong) (simp add: same)
  then have 3: "log s' = seq_events cfg n0 h2 (heap s') (Suc i)"
    using inv same [of i] by (simp add: seq_events_Suc seq_inv_def s')
  have 4: "length (pis s') = Suc i" using inv by (simp add: seq_inv_def s')
  have 5: "\<exists>r. eng (engine_args cfg) (h2 ! (n0 + j + 1)) (heap s' ! (n0 + j)) = Inr r
            \<and> heap s' ! (n0 + j + 1) = attach cfg r (h2 ! (n0 + j + 1))
            \<and> pis s' ! j = T (P r)" if j: "j < Suc i" for j
  proof (cases "j = i")
    case True
    have "pis s' ! i = T (P r)" using inv by (simp add: seq_inv_def s' nth_append)
    then show ?thesis using True r new same [of i] by auto
  next
    case False
    then have ji: "j < i" using j by simp
    then obtain r' where r': "eng (engine_args cfg) (h2 ! (n0 + j + 1)) (heap s ! (n0 + j)) = Inr r'"
      "heap s ! (n0 + j + 1) = attach cfg r' (h2 ! (n0 + j + 1))" "pis s ! j = T (P r')"
      using inv unfolding seq_inv_def by blast
    have "heap s' ! (n0 + j + 1) = heap s ! (n0 + j + 1)"
      using same [of "j + 1"] ji by simp
    moreover have "pis s' ! j = pis s ! j"
      using inv ji by (simp add: seq_inv_def s' nth_append)
    ultimately show ?thesis using r' same [of j] ji by auto
  qed
  show ?thesis unfolding seq_inv_def using 1 2 3 4 5 by blast
qed

lemma align_step_Some:
  assumes inv: "seq_inv eng cfg n0 h2 i s"
    and i: "i + 1 < N"
    and step: "align_step eng cfg [n0..<n0 + N] i s = (Some e, s')"
  shows "\<exists>e0. e = Raised e0
           \<and> eng (engine_args cfg) (h2 ! (n0 + i + 1)) (heap s ! (n0 + i)) = Inl e0
           \<and> heap s' = heap s
           \<and> log s' = log s @ [Register (engine_args cfg) (n0 + i + 1) (n0 + i)
                                 (h2 ! (n0 + i + 1)) (heap s ! (n0 + i))]"
proof -
  have a: "[n0..<n0 + N] ! i = n0 + i" and b: "[n0..<n0 + N] ! (i + 1) = n0 + i + 1"
    using i by simp_all
  have B: "heap s ! (n0 + i + 1) = h2 ! (n0 + i + 1)"
    using inv by (simp add: seq_inv_def)
  show ?thesis using step unfolding align_step_def a b B Let_def
    by (auto split: sum.splits)
qed


lemma init_after_copy:
  assumes "init_coords cfg [length h..<length h + length ms] (h @ map (\<lambda>m. h ! m) ms) = (r, h2)"
  shows "length h2 = length h + length ms"
    and "a < length h \<Longrightarrow> h2 ! a = h ! a"
    and "r = None \<Longrightarrow> k < length ms \<Longrightarrow>
           h2 ! (length h + k) = set_initial cfg (h ! (ms ! k))
           \<and> obsm (h ! (ms ! k)) (spatial_key cfg) \<noteq> None"
proof -
  show "length h2 = length h + length ms"
    using init_coords_length [OF assms] by simp
  show "h2 ! a = h ! a" if "a < length h"
    using init_coords_frame [OF assms, of a] that by (simp add: nth_append)
  show "h2 ! (length h + k) = set_initial cfg (h ! (ms ! k))
           \<and> obsm (h ! (ms ! k)) (spatial_key cfg) \<noteq> None" if "r = None" "k < length ms"
    using init_coords_done [of "[length h..<length h + length ms]" "h @ map (\<lambda>m. h ! m) ms"
        cfg h2 "length h + k"] assms that
    by (simp add: nth_append)
qed

lemma morpho_align_Inr:
  fixes eng :: "('a, 'it, 'vf, 'x, 'k, 'e) engine"
  assumes "morpho_align eng cfg models h = (Inr (out, ps), h', lg)"
  shows "\<exists>h2. init_coords cfg [length h..<length h + length models]
                 (h @ map (\<lambda>m. h ! m) models) = (None :: 'e error option, h2)
           \<and> out = [length h..<length h + length models]
           \<and> seq_inv eng cfg (length h) h2 (length models - 1) \<lparr>heap = h', log = lg, pis = ps\<rparr>"
proof -
  let ?am = "[length h..<length h + length models]"
  let ?h1 = "h @ map (\<lambda>m. h ! m) models"
  obtain r h2 where init: "init_coords cfg ?am ?h1 = (r :: 'e error option, h2)"
    by (cases "init_coords cfg ?am ?h1 :: 'e error option \<times> _")
  have r: "r = None" using assms init
    by (auto simp: morpho_align_def copy_models_def split: option.splits prod.splits)
  obtain q s where loop: "for_each (align_step eng cfg ?am) [0..<length models - 1]
       \<lparr>heap = h2, log = [], pis = []\<rparr> = (q, s)"
    by (cases "for_each (align_step eng cfg ?am) [0..<length models - 1]
       \<lparr>heap = h2, log = [], pis = []\<rparr>")
  have q: "q = None" and res: "out = ?am" "ps = pis s" "h' = heap s" "lg = log s"
    using assms init r loop
    by (auto simp: morpho_align_def copy_models_def iteration_def split: option.splits)
  have len: "length h + length models \<le> length h2"
    using init_after_copy(1) [OF init] by simp
  have "case for_each (align_step eng cfg ?am) [0..<length models - 1]
       \<lparr>heap = h2, log = [], pis = []\<rparr> of
           (None, s') \<Rightarrow> seq_inv eng cfg (length h) h2 (length models - 1) s'
         | (Some e, s') \<Rightarrow> \<exists>j t. j < length models - 1 \<and> seq_inv eng cfg (length h) h2 j t
               \<and> align_step eng cfg ?am j t = (Some e, s')"
  proof (rule for_each_upt_rule [where I = "seq_inv eng cfg (length h) h2"])
    show "seq_inv eng cfg (length h) h2 0 \<lparr>heap = h2, log = [], pis = []\<rparr>"
      by (rule seq_inv_init)
    show "0 \<le> length models - 1" by simp
    fix j t t'
    assume "j < length models - 1" "seq_inv eng cfg (length h) h2 j t"
      "align_step eng cfg ?am j t = (None, t')"
    then show "seq_inv eng cfg (length h) h2 (Suc j) t'"
      using align_step_None [of eng cfg "length h" h2 j t "length models" t'] len by simp
  qed
  then have "seq_inv eng cfg (length h) h2 (length models - 1) s"
    using loop q by simp
  moreover have "s = \<lparr>heap = h', log = lg, pis = ps\<rparr>" using res by simp
  ultimately have inv: "seq_inv eng cfg (length h) h2 (length models - 1)
      \<lparr>heap = h', log = lg, pis = ps\<rparr>" by simp
  have "init_coords cfg ?am ?h1 = (None :: 'e error option, h2)" using init r by simp
  then show ?thesis using res(1) inv by blast
qed

lemma morpho_align_Inl:
  fixes eng :: "('a, 'it, 'vf, 'x, 'k, 'e) engine"
  assumes "morpho_align eng cfg models h = (Inl e, h', lg)"
  shows "(lg = [] \<and> e = KeyError (spatial_key cfg)
          \<and> init_coords cfg [length h..<length h + length models]
               (h @ map (\<lambda>m. h ! m) models) = (Some e, h'))
       \<or> (\<exists>h2 i s e0.
            init_coords cfg [length h..<length h + length models]
               (h @ map (\<lambda>m. h ! m) models) = (None :: 'e error option, h2)
          \<and> i + 1 < length models
          \<and> seq_inv eng cfg (length h) h2 i s
          \<and> e = Raised e0
          \<and> eng (engine_args cfg) (h2 ! (length h + i + 1)) (heap s ! (length h + i)) = Inl e0
          \<and> h' = heap s
          \<and> lg = log s @ [Register (engine_args cfg) (length h + i + 1) (length h + i)
                            (h2 ! (length h + i + 1)) (heap s ! (length h + i))])"
proof -
  let ?am = "[length h..<length h + length models]"
  let ?h1 = "h @ map (\<lambda>m. h ! m) models"
  obtain r h2 where init: "init_coords cfg ?am ?h1 = (r :: 'e error option, h2)"
    by (cases "init_coords cfg ?am ?h1 :: 'e error option \<times> _")
  show ?thesis
  proof (cases r)
    case (Some e1)
    then have "lg = []" "e = e1" "h' = h2" using assms init
      by (auto simp: morpho_align_def copy_models_def)
    then show ?thesis using init Some init_coords_fails [of cfg ?am ?h1 e1 h2] by simp
  next
    case None
    obtain q s where loop: "for_each (align_step eng cfg ?am) [0..<length models - 1]
       \<lparr>heap = h2, log = [], pis = []\<rparr> = (q, s)"
      by (cases "for_each (align_step eng cfg ?am) [0..<length models - 1]
       \<lparr>heap = h2, log = [], pis = []\<rparr>")
    have q: "q = Some e" and res: "h' = heap s" "lg = log s"
      using assms init None loop
      by (auto simp: morpho_align_def copy_models_def iteration_def split: option.splits)
    have len: "length h + length models \<le> length h2"
      using init_after_copy(1) [OF init] by simp
    have "case for_each (align_step eng cfg ?am) [0..<length models - 1]
       \<lparr>heap = h2, log = [], pis = []\<rparr> of
           (None, s') \<Rightarrow> seq_inv eng cfg (length h) h2 (length models - 1) s'
         | (Some e, s') \<Rightarrow> \<exists>j t. j < length models - 1 \<and> seq_inv eng cfg (length h) h2 j t
               \<and> align_step eng cfg ?am j t = (Some e, s')"
    proof (rule for_each_upt_rule [where I = "seq_inv eng cfg (length h) h2"])
      show "seq_inv eng cfg (length h) h2 0 \<lparr>heap = h2, log = [], pis = []\<rparr>"
        by (rule seq_inv_init)
      show "0 \<le> length models - 1" by simp
      fix j t t'
      assume "j < length models - 1" "seq_inv eng cfg (length h) h2 j t"
        "align_step eng cfg ?am j t = (None, t')"
      then show "seq_inv eng cfg (length h) h2 (Suc j) t'"
        using align_step_None [of eng cfg "length h" h2 j t "length models" t'] len by simp
    qed
    then obtain j t where j: "j < length models - 1" and t: "seq_inv eng cfg (length h) h2 j t"
      and st: "align_step eng cfg ?am j t = (Some e, s)"
      using loop q by auto
    have "j + 1 < length models" using j by simp
    from align_step_Some [OF t this st] obtain e0 where
      "e = Raised e0"
      "eng (engine_args cfg) (h2 ! (length h + j + 1)) (heap t ! (length h + j)) = Inl e0"
      "heap s = heap t"
      "log s = log t @ [Register (engine_args cfg) (length h + j + 1) (length h + j)
                                 (h2 ! (length h + j + 1)) (heap t ! (length h + j))]"
      by blast
    then show ?thesis using init None res t \<open>j + 1 < length models\<close> by blast
  qed
qed

section \<open>Facts about the reference loop\<close>

lemma ref_events_cong:
  "(\<And>j. j < i \<Longrightarrow> hf ! (n2 + j) = hf' ! (n2 + j))
    \<Longrightarrow> ref_events eng cfg n1 n2 h5 hf i = ref_events eng cfg n1 n2 h5 hf' i"
  unfolding ref_events_def
  by (rule arg_cong [where f = concat], rule map_cong) (simp_all add: ref_pair_events_def)

lemma ref_events_Suc:
  "ref_events eng cfg n1 n2 h5 hf (Suc i) =
     ref_events eng cfg n1 n2 h5 hf i @ ref_pair_events eng cfg n1 n2 h5 hf i"
  by (simp add: ref_events_def)

lemma ref_inv_init:
  "ref_inv eng tr cfg n1 n2 M h5 lg0 0
     \<lparr>heap = h5, log = lg0, pis = [], align_models_ref = [n2..<n2 + M], pis_ref = []\<rparr>"
  by (simp add: ref_inv_def ref_events_def)

text \<open>The writes of one pair on the two objects, which are different.\<close>

lemma save_uns_ref_nth:
  assumes "b_ref \<noteq> b" "b_ref < length h" "b < length h"
  shows "length (save_uns_ref cfg r b_ref b h) = length h"
    and "save_uns_ref cfg r b_ref b h ! b_ref = save_uns cfg r (h ! b_ref)"
    and "save_uns_ref cfg r b_ref b h ! b = save_uns cfg r (h ! b)"
    and "a \<noteq> b_ref \<Longrightarrow> a \<noteq> b \<Longrightarrow> save_uns_ref cfg r b_ref b h ! a = h ! a"
  using assms
  by (auto simp: save_uns_ref_def save_uns_def upd_obj_def Let_def split: option.splits)

lemma attach_eq: "attach cfg r m = save_uns cfg r (attach_ref cfg r m)"
  by (simp add: attach_def attach_ref_def)

lemma obsm_attach_full:
  "obsm (attach_full cfg nr rg m) (rigid_key (key_added cfg)) = Some rg"
  "obsm (attach_full cfg nr rg m) (nonrigid_key (key_added cfg)) = Some nr"
  "obsm (attach_full cfg nr rg m) (key_added cfg) =
     (if mode cfg = ''SN-S'' then Some rg
      else if mode cfg = ''SN-N'' then Some nr
      else obsm m (key_added cfg))"
  by (simp_all add: attach_full_def select_mode_def obsm_assign_def obsm_set_def)

lemma uns_attach_full [simp]: "uns (attach_full cfg nr rg m) = uns m"
  by (simp add: attach_full_def obsm_set_def)


lemma ref_step_None_cases:
  assumes "ref_step eng tr cfg am i s = (None, s')"
  shows "i + 1 < length (align_models_ref s) \<and>
    (\<exists>r q nr d rg.
       eng (engine_args cfg) (heap s ! (align_models_ref s ! (i + 1)))
           (heap s ! (align_models_ref s ! i)) = Inr r
     \<and> obsm (save_uns_ref cfg r (align_models_ref s ! (i + 1)) (am ! (i + 1))
               (upd_obj (align_models_ref s ! (i + 1)) (attach_ref cfg r) (heap s))
              ! (am ! (i + 1))) (key_added cfg) = Some q
     \<and> tr (vecfld r) q (device cfg) (dtype cfg) = Inr (nr, d, rg)
     \<and> heap s' = upd_obj (am ! (i + 1)) (attach_full cfg nr rg)
                    (save_uns_ref cfg r (align_models_ref s ! (i + 1)) (am ! (i + 1))
                       (upd_obj (align_models_ref s ! (i + 1)) (attach_ref cfg r) (heap s)))
     \<and> log s' = log s @ [Register (engine_args cfg) (align_models_ref s ! (i + 1))
                            (align_models_ref s ! i)
                            (heap s ! (align_models_ref s ! (i + 1)))
                            (heap s ! (align_models_ref s ! i)),
                          Transform (vecfld r) q (device cfg) (dtype cfg)]
     \<and> pis s' = pis s @ [P r]
     \<and> pis_ref s' = pis_ref s @ [P r]
     \<and> align_models_ref s' = (align_models_ref s)[i + 1 := align_models_ref s ! (i + 1)])"
  using assms unfolding ref_step_def Let_def
  by (auto split: if_splits sum.splits option.splits prod.splits)

lemma ref_step_Some_cases:
  assumes "ref_step eng tr cfg am i s = (Some e, s')"
  shows "(length (align_models_ref s) \<le> i + 1 \<and> e = IndexError \<and> s' = s)
    \<or> (i + 1 < length (align_models_ref s) \<and>
        (\<exists>e0. eng (engine_args cfg) (heap s ! (align_models_ref s ! (i + 1)))
                 (heap s ! (align_models_ref s ! i)) = Inl e0
            \<and> e = Raised e0 \<and> heap s' = heap s
            \<and> log s' = log s @ [Register (engine_args cfg) (align_models_ref s ! (i + 1))
                            (align_models_ref s ! i)
                            (heap s ! (align_models_ref s ! (i + 1)))
                            (heap s ! (align_models_ref s ! i))]))
    \<or> (i + 1 < length (align_models_ref s) \<and>
        (\<exists>r. eng (engine_args cfg) (heap s ! (align_models_ref s ! (i + 1)))
                 (heap s ! (align_models_ref s ! i)) = Inr r
            \<and> heap s' = save_uns_ref cfg r (align_models_ref s ! (i + 1)) (am ! (i + 1))
                           (upd_obj (align_models_ref s ! (i + 1)) (attach_ref cfg r) (heap s))
            \<and> ((obsm (heap s' ! (am ! (i + 1))) (key_added cfg) = None
                  \<and> e = KeyError (key_added cfg))
               \<or> (\<exists>q e0. obsm (heap s' ! (am ! (i + 1))) (key_added cfg) = Some q
                     \<and> tr (vecfld r) q (device cfg) (dtype cfg) = Inl e0 \<and> e = Raised e0))))"
  using assms unfolding ref_step_def Let_def
  by (auto split: if_splits sum.splits option.splits prod.splits)

lemma ref_step_None:
  fixes eng :: "('a, 'it, 'vf, 'x, 'k, 'e) engine"
  assumes inv: "ref_inv eng tr cfg n1 n2 M h5 lg0 i s"
    and i: "i + 1 < N" and n12: "n1 + N \<le> n2" and len: "n2 + M \<le> length h5"
    and step: "ref_step eng tr cfg [n1..<n1 + N] i s = (None, s')"
  shows "ref_inv eng tr cfg n1 n2 M h5 lg0 (Suc i) s'"
proof -
  have amr: "align_models_ref s = [n2..<n2 + M]" using inv by (simp add: ref_inv_def)
  have hl: "length (heap s) = length h5" using inv by (simp add: ref_inv_def)
  have frame: "\<And>a. \<not> (n1 < a \<and> a \<le> n1 + i) \<Longrightarrow> \<not> (n2 < a \<and> a \<le> n2 + i)
      \<Longrightarrow> heap s ! a = h5 ! a"
    using inv by (simp add: ref_inv_def)
  note c = ref_step_None_cases [OF step]
  have iM: "i + 1 < M" using c amr by simp
  have a: "align_models_ref s ! i = n2 + i" and b: "align_models_ref s ! (i + 1) = n2 + i + 1"
    using iM amr by simp_all
  have bf: "[n1..<n1 + N] ! (i + 1) = n1 + i + 1" using i by simp
  have Bref: "heap s ! (n2 + i + 1) = h5 ! (n2 + i + 1)"
    using frame [of "n2 + i + 1"] n12 by simp
  have Bfull: "heap s ! (n1 + i + 1) = h5 ! (n1 + i + 1)"
    using frame [of "n1 + i + 1"] n12 i by simp
  have ne: "n2 + i + 1 \<noteq> n1 + i + 1" using n12 i by simp
  have v1: "n2 + i + 1 < length (heap s)" using hl len iM by simp
  have v2: "n1 + i + 1 < length (heap s)" using hl len i n12 by simp
  let ?hA = "upd_obj (n2 + i + 1) (attach_ref cfg r) (heap s)"
  from c obtain r q nr d rg where
    r: "eng (engine_args cfg) (h5 ! (n2 + i + 1)) (heap s ! (n2 + i)) = Inr r"
    and q0: "obsm (save_uns_ref cfg r (n2 + i + 1) (n1 + i + 1)
               (upd_obj (n2 + i + 1) (attach_ref cfg r) (heap s)) ! (n1 + i + 1))
               (key_added cfg) = Some q"
    and t: "tr (vecfld r) q (device cfg) (dtype cfg) = Inr (nr, d, rg)"
    and heap': "heap s' = upd_obj (n1 + i + 1) (attach_full cfg nr rg)
                    (save_uns_ref cfg r (n2 + i + 1) (n1 + i + 1)
                       (upd_obj (n2 + i + 1) (attach_ref cfg r) (heap s)))"
    and log': "log s' = log s @ [Register (engine_args cfg) (n2 + i + 1) (n2 + i)
                            (h5 ! (n2 + i + 1)) (heap s ! (n2 + i)),
                          Transform (vecfld r) q (device cfg) (dtype cfg)]"
    and pis': "pis s' = pis s @ [P r]"
    and pisr': "pis_ref s' = pis_ref s @ [P r]"
    and amr': "align_models_ref s' = (align_models_ref s)[i + 1 := n2 + i + 1]"
    unfolding a b bf Bref by blast
  let ?hA = "upd_obj (n2 + i + 1) (attach_ref cfg r) (heap s)"
  let ?hB = "save_uns_ref cfg r (n2 + i + 1) (n1 + i + 1) ?hA"
  have lA: "length ?hA = length (heap s)" by (simp add: upd_obj_def)
  have A_ref: "?hA ! (n2 + i + 1) = attach_ref cfg r (h5 ! (n2 + i + 1))"
    using v1 Bref by (simp add: upd_obj_def)
  have A_oth: "\<And>a. a \<noteq> n2 + i + 1 \<Longrightarrow> ?hA ! a = heap s ! a"
    by (simp add: upd_obj_def)
  note su = save_uns_ref_nth [where b_ref = "n2 + i + 1" and b = "n1 + i + 1" and h = ?hA
      and cfg = cfg and r = r, OF ne]
  have lB: "length ?hB = length (heap s)" using su(1) v1 v2 lA by simp
  have B_ref: "?hB ! (n2 + i + 1) = attach cfg r (h5 ! (n2 + i + 1))"
    using su(2) v1 v2 lA A_ref by (simp add: attach_eq)
  have B_full: "?hB ! (n1 + i + 1) = save_uns cfg r (h5 ! (n1 + i + 1))"
    using su(3) v1 v2 lA A_oth [of "n1 + i + 1"] ne Bfull by simp
  have B_oth: "\<And>a. a \<noteq> n2 + i + 1 \<Longrightarrow> a \<noteq> n1 + i + 1 \<Longrightarrow> ?hB ! a = heap s ! a"
    using su(4) v1 v2 lA A_oth by simp
  have q: "obsm (h5 ! (n1 + i + 1)) (key_added cfg) = Some q"
    using q0 B_full by simp
  have l': "length (heap s') = length (heap s)" using lB by (simp add: heap' upd_obj_def)
  have new_full: "heap s' ! (n1 + i + 1)
      = attach_full cfg nr rg (save_uns cfg r (h5 ! (n1 + i + 1)))"
    using v2 lB B_full by (simp add: heap' upd_obj_def)
  have new_ref: "heap s' ! (n2 + i + 1) = attach cfg r (h5 ! (n2 + i + 1))"
    using ne B_ref by (simp add: heap' upd_obj_def)
  have same: "\<And>a. a \<noteq> n2 + i + 1 \<Longrightarrow> a \<noteq> n1 + i + 1 \<Longrightarrow> heap s' ! a = heap s ! a"
    using B_oth by (simp add: heap' upd_obj_def)
  have same_ref: "\<And>j. j \<le> i \<Longrightarrow> heap s' ! (n2 + j) = heap s ! (n2 + j)"
    using same n12 i by simp
  have 1: "length (heap s') = length h5" using l' hl by simp
  have 2: "align_models_ref s' = [n2..<n2 + M]"
    using amr' amr b by (metis list_update_id)
  have 3: "\<forall>a. \<not> (n1 < a \<and> a \<le> n1 + Suc i) \<and> \<not> (n2 < a \<and> a \<le> n2 + Suc i)
      \<longrightarrow> heap s' ! a = h5 ! a"
  proof (intro allI impI)
    fix a assume h: "\<not> (n1 < a \<and> a \<le> n1 + Suc i) \<and> \<not> (n2 < a \<and> a \<le> n2 + Suc i)"
    then have "a \<noteq> n2 + i + 1" "a \<noteq> n1 + i + 1" by auto
    then have "heap s' ! a = heap s ! a" by (rule same)
    also have "\<dots> = h5 ! a" using h by (intro frame) auto
    finally show "heap s' ! a = h5 ! a" .
  qed
  have ev: "ref_events eng cfg n1 n2 h5 (heap s') i = ref_events eng cfg n1 n2 h5 (heap s) i"
    by (rule ref_events_cong) (simp add: same_ref)
  have "ref_pair_events eng cfg n1 n2 h5 (heap s') i
      = [Register (engine_args cfg) (n2 + i + 1) (n2 + i) (h5 ! (n2 + i + 1)) (heap s ! (n2 + i)),
         Transform (vecfld r) q (device cfg) (dtype cfg)]"
    using r q same_ref [of i] by (simp add: ref_pair_events_def)
  then have 4: "log s' = lg0 @ ref_events eng cfg n1 n2 h5 (heap s') (Suc i)"
    using inv ev by (simp add: ref_events_Suc ref_inv_def log')
  have 5: "length (pis s') = Suc i" using inv by (simp add: ref_inv_def pis')
  have 6: "pis_ref s' = pis s'" using inv by (simp add: ref_inv_def pis' pisr')
  have 7: "\<exists>r q nr d rg.
            eng (engine_args cfg) (h5 ! (n2 + j + 1)) (heap s' ! (n2 + j)) = Inr r
          \<and> heap s' ! (n2 + j + 1) = attach cfg r (h5 ! (n2 + j + 1))
          \<and> obsm (h5 ! (n1 + j + 1)) (key_added cfg) = Some q
          \<and> tr (vecfld r) q (device cfg) (dtype cfg) = Inr (nr, d, rg)
          \<and> heap s' ! (n1 + j + 1) = attach_full cfg nr rg (save_uns cfg r (h5 ! (n1 + j + 1)))
          \<and> pis s' ! j = P r" if j: "j < Suc i" for j
  proof (cases "j = i")
    case True
    have "pis s' ! i = P r" using inv by (simp add: ref_inv_def pis' nth_append)
    then show ?thesis using True r q t new_ref new_full same_ref [of i] by auto
  next
    case False
    then have ji: "j < i" using j by simp
    then obtain r' q' nr' d' rg' where o:
      "eng (engine_args cfg) (h5 ! (n2 + j + 1)) (heap s ! (n2 + j)) = Inr r'"
      "heap s ! (n2 + j + 1) = attach cfg r' (h5 ! (n2 + j + 1))"
      "obsm (h5 ! (n1 + j + 1)) (key_added cfg) = Some q'"
      "tr (vecfld r') q' (device cfg) (dtype cfg) = Inr (nr', d', rg')"
      "heap s ! (n1 + j + 1) = attach_full cfg nr' rg' (save_uns cfg r' (h5 ! (n1 + j + 1)))"
      "pis s ! j = P r'"
      using inv unfolding ref_inv_def by blast
    have "heap s' ! (n2 + j + 1) = heap s ! (n2 + j + 1)"
      using same_ref [of "j + 1"] ji by simp
    moreover have "heap s' ! (n1 + j + 1) = heap s ! (n1 + j + 1)"
      using same [of "n1 + j + 1"] ji n12 i by simp
    moreover have "pis s' ! j = pis s ! j"
      using inv ji by (simp add: ref_inv_def pis' nth_append)
    moreover have "heap s' ! (n2 + j) = heap s ! (n2 + j)" using same_ref [of j] ji by simp
    ultimately show ?thesis using o by auto
  qed
  have 8: "Suc i = 0 \<or> Suc i < M" using iM by simp
  show ?thesis unfolding ref_inv_def using 1 2 3 4 5 6 7 8 by blast
qed

lemma map_nth_copies: "map (\<lambda>m. (h @ xs) ! m) [length h..<length h + length xs] = xs"
  by (rule nth_equalityI) (simp_all add: nth_append)

lemma make_reference_frame:
  assumes "make_reference ds cfg models models_ref h = (res, h1, lg0)"
  shows "length h \<le> length h1" and "a < length h \<Longrightarrow> h1 ! a = h ! a"
  using assms
  by (auto simp: make_reference_def copy_models_def alloc_models_def Let_def nth_append
      split: option.splits sum.splits)

lemma make_reference_Some:
  "make_reference ds cfg models (Some mr) h = (Inr mr, h, [])"
  by (simp add: make_reference_def)

lemma make_reference_None:
  "make_reference ds cfg models None h =
     (case ds (map (\<lambda>m. h ! m) models) (n_sampling cfg) (sampling_method cfg) (spatial_key cfg) of
        Inl e \<Rightarrow> (Inl (Raised e), h @ map (\<lambda>m. h ! m) models,
                  [Downsampling (map (\<lambda>m. h ! m) models) (n_sampling cfg) (sampling_method cfg)
                     (spatial_key cfg)])
      | Inr ls \<Rightarrow>
          (Inr [length h + length models..<length h + length models + length ls],
           h @ map (\<lambda>m. h ! m) models @ ls,
           [Downsampling (map (\<lambda>m. h ! m) models) (n_sampling cfg) (sampling_method cfg)
              (spatial_key cfg)]))"
proof -
  have "map (\<lambda>m. (h @ map (\<lambda>m. h ! m) models) ! m) [length h..<length h + length models]
      = map (\<lambda>m. h ! m) models"
    using map_nth_copies [of h "map (\<lambda>m. h ! m) models"] by simp
  then show ?thesis
    by (simp add: make_reference_def copy_models_def alloc_models_def Let_def split: sum.splits)
qed

lemma ref_loop:
  fixes eng :: "('a, 'it, 'vf, 'x, 'k, 'e) engine"
  assumes n12: "n1 + N \<le> n2" and len: "n2 + M \<le> length h5"
  shows "case for_each (ref_step eng tr cfg [n1..<n1 + N]) [0..<N - 1]
              \<lparr>heap = h5, log = lg0, pis = [], align_models_ref = [n2..<n2 + M], pis_ref = []\<rparr> of
           (None, s') \<Rightarrow> ref_inv eng tr cfg n1 n2 M h5 lg0 (N - 1) s'
         | (Some e, s') \<Rightarrow> \<exists>j t. j < N - 1 \<and> ref_inv eng tr cfg n1 n2 M h5 lg0 j t
               \<and> ref_step eng tr cfg [n1..<n1 + N] j t = (Some e, s')"
proof (rule for_each_upt_rule [where I = "ref_inv eng tr cfg n1 n2 M h5 lg0"])
  show "ref_inv eng tr cfg n1 n2 M h5 lg0 0
     \<lparr>heap = h5, log = lg0, pis = [], align_models_ref = [n2..<n2 + M], pis_ref = []\<rparr>"
    by (rule ref_inv_init)
  show "0 \<le> N - 1" by simp
  fix j t t'
  assume "j < N - 1" "ref_inv eng tr cfg n1 n2 M h5 lg0 j t"
    "ref_step eng tr cfg [n1..<n1 + N] j t = (None, t')"
  then show "ref_inv eng tr cfg n1 n2 M h5 lg0 (Suc j) t'"
    using ref_step_None [of eng tr cfg n1 n2 M h5 lg0 j t N t'] n12 len by simp
qed

lemma morpho_align_ref_unfold:
  fixes eng :: "('a, 'it, 'vf, 'x, 'k, 'e) engine"
  assumes "make_reference ds cfg models models_ref h = (Inr mr, h1, lg0)"
    and "init_coords cfg [length h1..<length h1 + length models] (h1 @ map (\<lambda>m. h1 ! m) models)
           = (None :: 'e error option, h3)"
    and "init_coords cfg [length h3..<length h3 + length mr] (h3 @ map (\<lambda>m. h3 ! m) mr)
           = (None :: 'e error option, h5)"
  shows "morpho_align_ref eng tr ds cfg models models_ref h =
     (case for_each (ref_step eng tr cfg [length h1..<length h1 + length models])
             [0..<length models - 1]
             \<lparr>heap = h5, log = lg0, pis = [],
              align_models_ref = [length h3..<length h3 + length mr], pis_ref = []\<rparr> of
        (Some e, s) \<Rightarrow> (Inl e, heap s, log s)
      | (None, s) \<Rightarrow>
          (Inr ([length h1..<length h1 + length models], align_models_ref s, pis s, pis_ref s),
           heap s, log s))"
  using assms by (simp add: morpho_align_ref_def copy_models_def iteration_def)

lemma morpho_align_ref_Inr:
  fixes eng :: "('a, 'it, 'vf, 'x, 'k, 'e) engine"
  assumes run: "morpho_align_ref eng tr ds cfg models models_ref h
                  = (Inr (out, out_ref, ps, ps_ref), h', lg)"
  shows "\<exists>mr h1 lg0 h3 h5 s.
      make_reference ds cfg models models_ref h = (Inr mr, h1, lg0)
    \<and> init_coords cfg [length h1..<length h1 + length models] (h1 @ map (\<lambda>m. h1 ! m) models)
         = (None :: 'e error option, h3)
    \<and> init_coords cfg [length h3..<length h3 + length mr] (h3 @ map (\<lambda>m. h3 ! m) mr)
         = (None :: 'e error option, h5)
    \<and> length h3 = length h1 + length models
    \<and> length h5 = length h3 + length mr
    \<and> out = [length h1..<length h1 + length models]
    \<and> out_ref = [length h3..<length h3 + length mr]
    \<and> ref_inv eng tr cfg (length h1) (length h3) (length mr) h5 lg0 (length models - 1) s
    \<and> heap s = h' \<and> log s = lg \<and> pis s = ps \<and> pis_ref s = ps_ref"
proof -
  obtain res h1 lg0 where mk0: "make_reference ds cfg models models_ref h = (res, h1, lg0)"
    by (cases "make_reference ds cfg models models_ref h") auto
  obtain mr where res: "res = Inr mr"
    using run mk0 by (cases res) (auto simp: morpho_align_ref_def)
  have mk: "make_reference ds cfg models models_ref h = (Inr mr, h1, lg0)"
    using mk0 res by simp
  let ?am = "[length h1..<length h1 + length models]"
  obtain r1 h3 where i10: "init_coords cfg ?am (h1 @ map (\<lambda>m. h1 ! m) models)
      = (r1 :: 'e error option, h3)"
    by (cases "init_coords cfg ?am (h1 @ map (\<lambda>m. h1 ! m) models) :: 'e error option \<times> _")
  have r1: "r1 = None" using run mk i10
    by (cases r1) (auto simp: morpho_align_ref_def copy_models_def)
  have i1: "init_coords cfg ?am (h1 @ map (\<lambda>m. h1 ! m) models) = (None :: 'e error option, h3)"
    using i10 r1 by simp
  let ?amr = "[length h3..<length h3 + length mr]"
  obtain r2 h5 where i20: "init_coords cfg ?amr (h3 @ map (\<lambda>m. h3 ! m) mr)
      = (r2 :: 'e error option, h5)"
    by (cases "init_coords cfg ?amr (h3 @ map (\<lambda>m. h3 ! m) mr) :: 'e error option \<times> _")
  have r2: "r2 = None" using run mk i1 i20
    by (cases r2) (auto simp: morpho_align_ref_def copy_models_def)
  have i2: "init_coords cfg ?amr (h3 @ map (\<lambda>m. h3 ! m) mr) = (None :: 'e error option, h5)"
    using i20 r2 by simp
  have l3: "length h3 = length h1 + length models" using init_after_copy(1) [OF i1] .
  have l5: "length h5 = length h3 + length mr" using init_after_copy(1) [OF i2] .
  let ?s0 = "\<lparr>heap = h5, log = lg0, pis = [], align_models_ref = ?amr, pis_ref = []\<rparr>"
  obtain q s where loop: "for_each (ref_step eng tr cfg ?am) [0..<length models - 1] ?s0 = (q, s)"
    by (cases "for_each (ref_step eng tr cfg ?am) [0..<length models - 1] ?s0")
  note u = morpho_align_ref_unfold [OF mk i1 i2, of eng tr]
  have q: "q = None" using run u loop by (cases q) auto
  have res': "out = ?am" "out_ref = align_models_ref s" "ps = pis s" "ps_ref = pis_ref s"
    "h' = heap s" "lg = log s"
    using run u loop q by auto
  have "ref_inv eng tr cfg (length h1) (length h3) (length mr) h5 lg0 (length models - 1) s"
    using ref_loop [of "length h1" "length models" "length h3" "length mr" h5 eng tr cfg lg0]
      loop q l3 l5 by simp
  then show ?thesis using mk i1 i2 l3 l5 res' by (auto simp: ref_inv_def)
qed

lemma save_uns_ref_other:
  "length (save_uns_ref cfg r b_ref b h) = length h"
  "a \<noteq> b_ref \<Longrightarrow> a \<noteq> b \<Longrightarrow> save_uns_ref cfg r b_ref b h ! a = h ! a"
  by (auto simp: save_uns_ref_def upd_obj_def Let_def split: option.splits)

lemma ref_step_Some_frame:
  assumes "ref_step eng tr cfg am i s = (Some e, s')"
  shows "length (heap s') = length (heap s)"
    and "a \<noteq> align_models_ref s ! (i + 1) \<Longrightarrow> a \<noteq> am ! (i + 1) \<Longrightarrow> heap s' ! a = heap s ! a"
  using ref_step_Some_cases [OF assms]
  by (auto simp: save_uns_ref_other upd_obj_def)

lemma prefix_take: "length h \<le> length h' \<Longrightarrow> (\<And>a. a < length h \<Longrightarrow> h' ! a = h ! a)
    \<Longrightarrow> take (length h) h' = h"
  by (rule nth_equalityI) simp_all

lemma morpho_align_frame:
  fixes eng :: "('a, 'it, 'vf, 'x, 'k, 'e) engine"
  assumes run: "morpho_align eng cfg models h = (res, h', lg)"
  shows "length h' = length h + length models" and "a < length h \<Longrightarrow> h' ! a = h ! a"
proof -
  have "length h' = length h + length models \<and> (\<forall>a < length h. h' ! a = h ! a)"
  proof (cases res)
    case (Inr p)
    obtain out ps where p: "p = (out, ps)" by (cases p)
    from morpho_align_Inr [OF run [unfolded Inr p]] obtain h2 where
      init: "init_coords cfg [length h..<length h + length models]
               (h @ map (\<lambda>m. h ! m) models) = (None :: 'e error option, h2)"
      and inv: "seq_inv eng cfg (length h) h2 (length models - 1)
                 \<lparr>heap = h', log = lg, pis = ps\<rparr>"
      by blast
    show ?thesis
      using inv init_after_copy(1,2) [OF init] by (simp add: seq_inv_def)
  next
    case (Inl e)
    from morpho_align_Inl [OF run [unfolded Inl]] show ?thesis
    proof (elim disjE conjE exE)
      assume "init_coords cfg [length h..<length h + length models]
               (h @ map (\<lambda>m. h ! m) models) = (Some e, h')"
      from init_after_copy(1,2) [OF this] show ?thesis by simp
    next
      fix h2 i s e0
      assume init: "init_coords cfg [length h..<length h + length models]
               (h @ map (\<lambda>m. h ! m) models) = (None :: 'e error option, h2)"
        and inv: "seq_inv eng cfg (length h) h2 i s" and h': "h' = heap s"
      show ?thesis
        using inv h' init_after_copy(1,2) [OF init] by (simp add: seq_inv_def)
    qed
  qed
  then show "length h' = length h + length models" and "a < length h \<Longrightarrow> h' ! a = h ! a"
    by simp_all
qed

lemma morpho_align_ref_frame:
  fixes eng :: "('a, 'it, 'vf, 'x, 'k, 'e) engine"
  assumes run: "morpho_align_ref eng tr ds cfg models models_ref h = (res, h', lg)"
  shows "length h \<le> length h' \<and> (\<forall>a < length h. h' ! a = h ! a)"
proof -
  obtain res0 h1 lg0 where mk: "make_reference ds cfg models models_ref h = (res0, h1, lg0)"
    by (cases "make_reference ds cfg models models_ref h") auto
  note f1 = make_reference_frame [OF mk]
  show ?thesis
  proof (cases res0)
    case (Inl e)
    then have "h' = h1" using run mk by (simp add: morpho_align_ref_def)
    then show ?thesis using f1 by simp
  next
    case (Inr mr)
    let ?am = "[length h1..<length h1 + length models]"
    obtain r1 h3 where i1: "init_coords cfg ?am (h1 @ map (\<lambda>m. h1 ! m) models)
        = (r1 :: 'e error option, h3)"
      by (cases "init_coords cfg ?am (h1 @ map (\<lambda>m. h1 ! m) models) :: 'e error option \<times> _")
    note f3 = init_after_copy(1,2) [OF i1]
    have f3': "length h \<le> length h3 \<and> (\<forall>a < length h. h3 ! a = h ! a)"
      using f1 f3 by simp
    show ?thesis
    proof (cases r1)
      case (Some e)
      then have "h' = h3" using run mk Inr i1
        by (simp add: morpho_align_ref_def copy_models_def)
      then show ?thesis using f3' by simp
    next
      case None
      let ?amr = "[length h3..<length h3 + length mr]"
      obtain r2 h5 where i2: "init_coords cfg ?amr (h3 @ map (\<lambda>m. h3 ! m) mr)
          = (r2 :: 'e error option, h5)"
        by (cases "init_coords cfg ?amr (h3 @ map (\<lambda>m. h3 ! m) mr) :: 'e error option \<times> _")
      note f5 = init_after_copy(1,2) [OF i2]
      have f5': "length h \<le> length h5 \<and> (\<forall>a < length h. h5 ! a = h ! a)"
        using f3' f5 by simp
      show ?thesis
      proof (cases r2)
        case (Some e)
        then have "h' = h5" using run mk Inr i1 None i2
          by (simp add: morpho_align_ref_def copy_models_def)
        then show ?thesis using f5' by simp
      next
        case r2: None
        let ?s0 = "\<lparr>heap = h5, log = lg0, pis = [], align_models_ref = ?amr, pis_ref = []\<rparr>"
        obtain q s where loop:
          "for_each (ref_step eng tr cfg ?am) [0..<length models - 1] ?s0 = (q, s)"
          by (cases "for_each (ref_step eng tr cfg ?am) [0..<length models - 1] ?s0")
        note u = morpho_align_ref_unfold [OF mk [unfolded Inr] i1 [unfolded None] i2 [unfolded r2],
            of eng tr]
        have h': "h' = heap s" using run u loop by (cases q) auto
        note rl = ref_loop [of "length h1" "length models" "length h3" "length mr" h5 eng tr cfg lg0]
        have pre: "length h1 + length models \<le> length h3" "length h3 + length mr \<le> length h5"
          using f3 f5 by simp_all
        have "length (heap s) = length h5 \<and> (\<forall>a < length h. heap s ! a = h5 ! a)"
        proof (cases q)
          case None
          then have "ref_inv eng tr cfg (length h1) (length h3) (length mr) h5 lg0
              (length models - 1) s"
            using rl [OF pre] loop by simp
          then show ?thesis using f1(1) f3(1) by (simp add: ref_inv_def)
        next
          case (Some e)
          then obtain j t where j: "j < length models - 1"
            and inv: "ref_inv eng tr cfg (length h1) (length h3) (length mr) h5 lg0 j t"
            and st: "ref_step eng tr cfg ?am j t = (Some e, s)"
            using rl [OF pre] loop by auto
          have amr: "align_models_ref t = ?amr" using inv by (simp add: ref_inv_def)
          have "heap s ! a = h5 ! a" if a: "a < length h" for a
          proof -
            have "align_models_ref t ! (j + 1) = length h3 + j + 1
                \<or> length (align_models_ref t) \<le> j + 1"
              using amr by auto
            have "heap s ! a = heap t ! a"
            proof (cases "length (align_models_ref t) \<le> j + 1")
              case True
              then show ?thesis using ref_step_Some_cases [OF st] by auto
            next
              case False
              then have "align_models_ref t ! (j + 1) = length h3 + j + 1" using amr by simp
              moreover have "?am ! (j + 1) = length h1 + j + 1" using j by simp
              ultimately show ?thesis
                using ref_step_Some_frame(2) [OF st, of a] a f1(1) f3(1) by simp
            qed
            also have "\<dots> = h5 ! a" using inv a f1(1) f3(1) by (simp add: ref_inv_def)
            finally show ?thesis .
          qed
          moreover have "length (heap s) = length h5"
            using ref_step_Some_frame(1) [OF st] inv by (simp add: ref_inv_def)
          ultimately show ?thesis by simp
        qed
        then show ?thesis using h' f5' by simp
      qed
    qed
  qed
qed

lemma make_reference_Inr:
  assumes mk: "make_reference ds cfg models models_ref h = (Inr mr, h1, lg0)"
    and v: "valid_refs models_ref h"
  shows "reference_values ds cfg models models_ref h = Inr (map (\<lambda>m. h1 ! m) mr)"
    and "\<forall>m \<in> set mr. m < length h1"
    and "lg0 = (case models_ref of
                  Some x \<Rightarrow> []
                | None \<Rightarrow> [Downsampling (map (\<lambda>m. h ! m) models) (n_sampling cfg)
                             (sampling_method cfg) (spatial_key cfg)])"
proof -
  have "reference_values ds cfg models models_ref h = Inr (map (\<lambda>m. h1 ! m) mr)
      \<and> (\<forall>m \<in> set mr. m < length h1)
      \<and> lg0 = (case models_ref of
                  Some x \<Rightarrow> []
                | None \<Rightarrow> [Downsampling (map (\<lambda>m. h ! m) models) (n_sampling cfg)
                             (sampling_method cfg) (spatial_key cfg)])"
  proof (cases models_ref)
    case (Some mr')
    then show ?thesis using mk v
      by (auto simp: make_reference_Some reference_values_def valid_refs_def list_all_iff)
  next
    case None
    obtain ls where ls: "ds (map (\<lambda>m. h ! m) models) (n_sampling cfg) (sampling_method cfg)
        (spatial_key cfg) = Inr ls"
      and mr: "mr = [length h + length models..<length h + length models + length ls]"
      and h1: "h1 = h @ map (\<lambda>m. h ! m) models @ ls"
      and lg0: "lg0 = [Downsampling (map (\<lambda>m. h ! m) models) (n_sampling cfg)
                             (sampling_method cfg) (spatial_key cfg)]"
      using mk None by (auto simp: make_reference_None split: sum.splits)
    have "map (\<lambda>m. h1 ! m) mr = ls"
      using map_nth_copies [of "h @ map (\<lambda>m. h ! m) models" ls] by (simp add: mr h1)
    then show ?thesis using None ls lg0 by (simp add: reference_values_def mr h1)
  qed
  then show "reference_values ds cfg models models_ref h = Inr (map (\<lambda>m. h1 ! m) mr)"
    and "\<forall>m \<in> set mr. m < length h1"
    and "lg0 = (case models_ref of
                  Some x \<Rightarrow> []
                | None \<Rightarrow> [Downsampling (map (\<lambda>m. h ! m) models) (n_sampling cfg)
                             (sampling_method cfg) (spatial_key cfg)])"
    by simp_all
qed

lemma make_reference_total:
  assumes "reference_values ds cfg models models_ref h = Inr vs"
  shows "\<exists>mr h1 lg0. make_reference ds cfg models models_ref h = (Inr mr, h1, lg0)"
  using assms
  by (cases models_ref)
     (auto simp: make_reference_None make_reference_Some reference_values_def)

lemma make_reference_Inl:
  assumes "make_reference ds cfg models models_ref h = (Inl e, h1, lg0)"
  shows "\<exists>e0. reference_values ds cfg models models_ref h = Inl e0"
  using assms
  by (cases models_ref)
     (auto simp: make_reference_None make_reference_Some reference_values_def split: sum.splits)

text \<open>The objects before the loop of a run of the reference orchestrator.\<close>

lemma ref_initial_objects:
  fixes h3 :: "('a, 'it, 'vf, 'x) heap"
  assumes mk: "make_reference ds cfg models models_ref h = (Inr mr, h1, lg0)"
    and i1: "init_coords cfg [length h1..<length h1 + length models]
               (h1 @ map (\<lambda>m. h1 ! m) models) = (None :: 'e error option, h3)"
    and i2: "init_coords cfg [length h3..<length h3 + length mr] (h3 @ map (\<lambda>m. h3 ! m) mr)
               = (None :: 'e error option, h5)"
    and vm: "\<forall>m \<in> set models. m < length h" and vr: "valid_refs models_ref h"
  shows "k < length models \<Longrightarrow>
           h5 ! (length h1 + k) = set_initial cfg (h ! (models ! k))
           \<and> obsm (h ! (models ! k)) (spatial_key cfg) \<noteq> None"
    and "k < length mr \<Longrightarrow>
           h5 ! (length h3 + k) = set_initial cfg (h1 ! (mr ! k))
           \<and> obsm (h1 ! (mr ! k)) (spatial_key cfg) \<noteq> None"
proof -
  note f1 = make_reference_frame [OF mk]
  note f3 = init_after_copy [OF i1]
  note f5 = init_after_copy [OF i2]
  show "h5 ! (length h1 + k) = set_initial cfg (h ! (models ! k))
           \<and> obsm (h ! (models ! k)) (spatial_key cfg) \<noteq> None" if k: "k < length models"
  proof -
    have "models ! k < length h" using vm k by simp
    then have "h1 ! (models ! k) = h ! (models ! k)" using f1(2) by simp
    moreover have "h5 ! (length h1 + k) = h3 ! (length h1 + k)"
      using f5(2) [of "length h1 + k"] f3(1) k by simp
    ultimately show ?thesis using f3(3) [OF refl k] by simp
  qed
  show "h5 ! (length h3 + k) = set_initial cfg (h1 ! (mr ! k))
           \<and> obsm (h1 ! (mr ! k)) (spatial_key cfg) \<noteq> None" if k: "k < length mr"
  proof -
    have "mr ! k < length h1" using make_reference_Inr(2) [OF mk vr] k by simp
    then have "h3 ! (mr ! k) = h1 ! (mr ! k)" using f3(2) by simp
    then show ?thesis using f5(3) [OF refl k] by simp
  qed
qed

lemma morpho_align_succeeds:
  fixes eng :: "('a, 'it, 'vf, 'x, 'k, 'e) engine"
  assumes tot: "\<forall>B A. \<exists>r. eng (engine_args cfg) B A = Inr r"
    and keys: "\<forall>m \<in> set models. obsm (h ! m) (spatial_key cfg) \<noteq> None"
  shows "\<exists>out ps h' lg. morpho_align eng cfg models h = (Inr (out, ps), h', lg)"
proof -
  obtain res h' lg where run: "morpho_align eng cfg models h = (res, h', lg)"
    by (cases "morpho_align eng cfg models h") auto
  show ?thesis
  proof (cases res)
    case (Inr p)
    then show ?thesis using run by (cases p) auto
  next
    case (Inl e)
    let ?am = "[length h..<length h + length models]"
    let ?h1 = "h @ map (\<lambda>m. h ! m) models"
    have "\<forall>m \<in> set ?am. obsm (?h1 ! m) (spatial_key cfg) \<noteq> None"
      using keys by (auto simp: nth_append)
    then have ok: "fst (init_coords cfg ?am ?h1 :: 'e error option \<times> _) = None"
      by (intro init_coords_succeeds) simp_all
    from morpho_align_Inl [OF run [unfolded Inl]] have False
    proof (elim disjE conjE exE)
      assume "init_coords cfg ?am ?h1 = (Some e, h')"
      then show False using ok by simp
    next
      fix h2 :: "('a, 'it, 'vf, 'x) heap" and i s e0
      assume "eng (engine_args cfg) (h2 ! (length h + i + 1)) (heap s ! (length h + i)) = Inl e0"
      then show False using tot by (metis Inl_Inr_False)
    qed
    then show ?thesis ..
  qed
qed


lemma ref_step_query:
  fixes eng :: "('a, 'it, 'vf, 'x, 'k, 'e) engine"
  assumes inv: "ref_inv eng tr cfg n1 n2 M h5 lg0 i s"
    and i: "i + 1 < N" and iM: "i + 1 < M" and n12: "n1 + N \<le> n2" and len: "n2 + M \<le> length h5"
  shows "save_uns_ref cfg r (n2 + i + 1) (n1 + i + 1)
           (upd_obj (n2 + i + 1) (attach_ref cfg r) (heap s)) ! (n1 + i + 1)
         = save_uns cfg r (h5 ! (n1 + i + 1))"
proof -
  have hl: "length (heap s) = length h5" using inv by (simp add: ref_inv_def)
  have Bfull: "heap s ! (n1 + i + 1) = h5 ! (n1 + i + 1)"
    using inv n12 i by (simp add: ref_inv_def)
  let ?hA = "upd_obj (n2 + i + 1) (attach_ref cfg r) (heap s)"
  have ne: "n2 + i + 1 \<noteq> n1 + i + 1" using n12 i by simp
  have lA: "length ?hA = length (heap s)" by (simp add: upd_obj_def)
  have "?hA ! (n1 + i + 1) = h5 ! (n1 + i + 1)" using ne Bfull by (simp add: upd_obj_def)
  moreover have "n2 + i + 1 < length ?hA" "n1 + i + 1 < length ?hA"
    using lA hl len iM i n12 by simp_all
  ultimately show ?thesis
    using save_uns_ref_nth(3) [where b_ref = "n2 + i + 1" and b = "n1 + i + 1" and h = ?hA
        and cfg = cfg and r = r, OF ne] by simp
qed

lemma morpho_align_ref_succeeds:
  fixes eng :: "('a, 'it, 'vf, 'x, 'k, 'e) engine"
  assumes tot: "\<forall>B A. \<exists>r. eng (engine_args cfg) B A = Inr r"
    and tot_tr: "\<forall>vf q. \<exists>res. tr vf q (device cfg) (dtype cfg) = Inr res"
    and rv: "reference_values ds cfg models models_ref h = Inr vs"
    and vm: "\<forall>m \<in> set models. m < length h" and vr: "valid_refs models_ref h"
    and keys: "\<forall>m \<in> set models. obsm (h ! m) (spatial_key cfg) \<noteq> None"
    and keys_ref: "\<forall>v \<in> set vs. obsm v (spatial_key cfg) \<noteq> None"
    and len: "length models \<le> length vs"
  shows "\<exists>out out_ref ps ps_ref h' lg.
           morpho_align_ref eng tr ds cfg models models_ref h
             = (Inr (out, out_ref, ps, ps_ref), h', lg)"
proof -
  from make_reference_total [OF rv] obtain mr h1 lg0 where
    mk: "make_reference ds cfg models models_ref h = (Inr mr, h1, lg0)" by blast
  note f1 = make_reference_frame [OF mk]
  have vs: "vs = map (\<lambda>m. h1 ! m) mr" using make_reference_Inr(1) [OF mk vr] rv by simp
  have vmr: "\<forall>m \<in> set mr. m < length h1" using make_reference_Inr(2) [OF mk vr] .
  let ?am = "[length h1..<length h1 + length models]"
  have "\<forall>m \<in> set ?am. obsm ((h1 @ map (\<lambda>m. h1 ! m) models) ! m) (spatial_key cfg) \<noteq> None"
    using keys vm f1(2) by (auto simp: nth_append)
  then have "fst (init_coords cfg ?am (h1 @ map (\<lambda>m. h1 ! m) models) :: 'e error option \<times> _)
      = None"
    by (intro init_coords_succeeds) simp_all
  then obtain h3 where i1: "init_coords cfg ?am (h1 @ map (\<lambda>m. h1 ! m) models)
      = (None :: 'e error option, h3)"
    by (cases "init_coords cfg ?am (h1 @ map (\<lambda>m. h1 ! m) models) :: 'e error option \<times> _") auto
  note f3 = init_after_copy [OF i1]
  let ?amr = "[length h3..<length h3 + length mr]"
  have "\<forall>m \<in> set ?amr. obsm ((h3 @ map (\<lambda>m. h3 ! m) mr) ! m) (spatial_key cfg) \<noteq> None"
  proof
    fix m assume "m \<in> set ?amr"
    then obtain k where k: "k < length mr" "m = length h3 + k"
      by (auto simp: nat_le_iff_add)
    then have "(h3 @ map (\<lambda>m. h3 ! m) mr) ! m = h3 ! (mr ! k)" by (simp add: nth_append)
    also have "\<dots> = h1 ! (mr ! k)" using vmr k f3(2) by simp
    also have "\<dots> = vs ! k" using vs k by simp
    finally show "obsm ((h3 @ map (\<lambda>m. h3 ! m) mr) ! m) (spatial_key cfg) \<noteq> None"
      using keys_ref k vs by simp
  qed
  then have "fst (init_coords cfg ?amr (h3 @ map (\<lambda>m. h3 ! m) mr) :: 'e error option \<times> _) = None"
    by (intro init_coords_succeeds) simp_all
  then obtain h5 where i2: "init_coords cfg ?amr (h3 @ map (\<lambda>m. h3 ! m) mr)
      = (None :: 'e error option, h5)"
    by (cases "init_coords cfg ?amr (h3 @ map (\<lambda>m. h3 ! m) mr) :: 'e error option \<times> _") auto
  note f5 = init_after_copy [OF i2]
  note io = ref_initial_objects [OF mk i1 i2 vm vr]
  let ?s0 = "\<lparr>heap = h5, log = lg0, pis = [], align_models_ref = ?amr, pis_ref = []\<rparr>"
  obtain q s where loop:
    "for_each (ref_step eng tr cfg ?am) [0..<length models - 1] ?s0 = (q, s)"
    by (cases "for_each (ref_step eng tr cfg ?am) [0..<length models - 1] ?s0")
  note u = morpho_align_ref_unfold [OF mk i1 i2, of eng tr]
  have pre: "length h1 + length models \<le> length h3" "length h3 + length mr \<le> length h5"
    using f3(1) f5(1) by simp_all
  note rl = ref_loop [of "length h1" "length models" "length h3" "length mr" h5 eng tr cfg lg0,
      OF pre]
  have M: "length models \<le> length mr" using len vs by simp
  have "q = None"
  proof (cases q)
    case (Some e)
    then obtain j t where j: "j < length models - 1"
      and inv: "ref_inv eng tr cfg (length h1) (length h3) (length mr) h5 lg0 j t"
      and st: "ref_step eng tr cfg ?am j t = (Some e, s)"
      using rl loop by auto
    have amr: "align_models_ref t = ?amr" using inv by (simp add: ref_inv_def)
    have jN: "j + 1 < length models" using j by simp
    have jM: "j + 1 < length mr" using jN M by simp
    have b: "align_models_ref t ! (j + 1) = length h3 + j + 1" using amr jM by simp
    have bf: "?am ! (j + 1) = length h1 + j + 1" using jN by simp
    have key: "obsm (h5 ! (length h1 + j + 1)) (key_added cfg) \<noteq> None"
      using io(1) [of "j + 1"] jN by (simp add: obsm_set_initial)
    from ref_step_Some_cases [OF st] have False
    proof (elim disjE conjE exE)
      assume "length (align_models_ref t) \<le> j + 1"
      then show False using amr jM by simp
    next
      fix e0
      assume "eng (engine_args cfg) (heap t ! (align_models_ref t ! (j + 1)))
                 (heap t ! (align_models_ref t ! j)) = Inl e0"
      then show False using tot by (metis Inl_Inr_False)
    next
      fix r
      assume hs: "heap s = save_uns_ref cfg r (align_models_ref t ! (j + 1)) (?am ! (j + 1))
          (upd_obj (align_models_ref t ! (j + 1)) (attach_ref cfg r) (heap t))"
        and "obsm (heap s ! (?am ! (j + 1))) (key_added cfg) = None"
      then show False
        using ref_step_query [OF inv jN jM pre, of r] key unfolding b bf by simp
    next
      fix r q' e0
      assume "tr (vecfld r) q' (device cfg) (dtype cfg) = Inl e0"
      then show False using tot_tr by (metis Inl_Inr_False)
    qed
    then show ?thesis ..
  qed simp
  then show ?thesis using u loop by simp
qed

section \<open>Runs that return\<close>

lemma attach_rest [simp]:
  "n_obs (attach cfg r m) = n_obs m" "content (attach cfg r m) = content m"
  by (simp_all add: attach_def select_mode_def obsm_assign_def obsm_set_def)

lemma attach_full_rest [simp]:
  "n_obs (attach_full cfg nr rg m) = n_obs m" "content (attach_full cfg nr rg m) = content m"
  by (simp_all add: attach_full_def select_mode_def obsm_assign_def obsm_set_def)

lemma Register_in_seq_events:
  "Register args b a B A \<in> set (seq_events cfg n0 h2 hf i) \<longleftrightarrow>
     (\<exists>j < i. args = engine_args cfg \<and> b = n0 + j + 1 \<and> a = n0 + j
        \<and> B = h2 ! (n0 + j + 1) \<and> A = hf ! (n0 + j))"
  by (auto simp: seq_events_def)

text \<open>A run of the sequential orchestrator that returns, in terms of its inputs.\<close>

lemma morpho_align_result:
  fixes eng :: "('a, 'it, 'vf, 'x, 'k, 'e) engine"
  assumes run: "morpho_align eng cfg models h = (Inr (out, ps), h', lg)"
  shows "out = [length h..<length h + length models]
    \<and> length ps = length models - 1
    \<and> (\<forall>k < length models. obsm (h ! (models ! k)) (spatial_key cfg) \<noteq> None)
    \<and> (0 < length models \<longrightarrow> h' ! length h = set_initial cfg (h ! (models ! 0)))
    \<and> (\<forall>j. j + 1 < length models \<longrightarrow>
          (\<exists>r. eng (engine_args cfg) (set_initial cfg (h ! (models ! (j + 1))))
                  (h' ! (length h + j)) = Inr r
             \<and> h' ! (length h + j + 1) = attach cfg r (set_initial cfg (h ! (models ! (j + 1))))
             \<and> ps ! j = T (P r)))
    \<and> lg = concat (map (\<lambda>j. [Register (engine_args cfg) (length h + j + 1) (length h + j)
                                 (set_initial cfg (h ! (models ! (j + 1)))) (h' ! (length h + j)),
                               Empty_cache (device cfg)]) [0..<length models - 1])"
proof -
  let ?n0 = "length h" and ?N = "length models"
  from morpho_align_Inr [OF run] obtain h2 where
    init: "init_coords cfg [?n0..<?n0 + ?N] (h @ map (\<lambda>m. h ! m) models)
             = (None :: 'e error option, h2)"
    and out: "out = [?n0..<?n0 + ?N]"
    and inv: "seq_inv eng cfg ?n0 h2 (?N - 1) \<lparr>heap = h', log = lg, pis = ps\<rparr>"
    by blast
  have io: "\<And>k. k < ?N \<Longrightarrow> h2 ! (?n0 + k) = set_initial cfg (h ! (models ! k))
      \<and> obsm (h ! (models ! k)) (spatial_key cfg) \<noteq> None"
    using init_after_copy(3) [OF init refl] by blast
  have 2: "length ps = ?N - 1" using inv by (simp add: seq_inv_def)
  have 3: "\<forall>k < ?N. obsm (h ! (models ! k)) (spatial_key cfg) \<noteq> None" using io by blast
  have 4: "0 < ?N \<longrightarrow> h' ! ?n0 = set_initial cfg (h ! (models ! 0))"
    using inv io [of 0] by (auto simp: seq_inv_def)
  have 5: "\<exists>r. eng (engine_args cfg) (set_initial cfg (h ! (models ! (j + 1))))
                  (h' ! (?n0 + j)) = Inr r
             \<and> h' ! (?n0 + j + 1) = attach cfg r (set_initial cfg (h ! (models ! (j + 1))))
             \<and> ps ! j = T (P r)" if j: "j + 1 < ?N" for j
  proof -
    have "j < ?N - 1" using j by simp
    then obtain r where "eng (engine_args cfg) (h2 ! (?n0 + j + 1)) (h' ! (?n0 + j)) = Inr r"
      "h' ! (?n0 + j + 1) = attach cfg r (h2 ! (?n0 + j + 1))" "ps ! j = T (P r)"
      using inv unfolding seq_inv_def by fastforce
    then show ?thesis using io [of "j + 1"] j by (auto simp: add.assoc)
  qed
  have "lg = seq_events cfg ?n0 h2 h' (?N - 1)" using inv by (simp add: seq_inv_def)
  also have "\<dots> = concat (map (\<lambda>j. [Register (engine_args cfg) (?n0 + j + 1) (?n0 + j)
                                 (set_initial cfg (h ! (models ! (j + 1)))) (h' ! (?n0 + j)),
                               Empty_cache (device cfg)]) [0..<?N - 1])"
    unfolding seq_events_def
  proof (rule arg_cong [where f = concat], rule map_cong [OF refl])
    fix j assume "j \<in> set [0..<?N - 1]"
    then have "j + 1 < ?N" by simp
    then have "h2 ! (?n0 + j + 1) = set_initial cfg (h ! (models ! (j + 1)))"
      using io [of "j + 1"] by (simp add: add.assoc)
    then show "[Register (engine_args cfg) (?n0 + j + 1) (?n0 + j) (h2 ! (?n0 + j + 1))
                  (h' ! (?n0 + j)), Empty_cache (device cfg)]
             = [Register (engine_args cfg) (?n0 + j + 1) (?n0 + j)
                  (set_initial cfg (h ! (models ! (j + 1)))) (h' ! (?n0 + j)),
                Empty_cache (device cfg)]"
      by simp
  qed
  finally have 6: "lg = concat (map (\<lambda>j. [Register (engine_args cfg) (?n0 + j + 1) (?n0 + j)
                                 (set_initial cfg (h ! (models ! (j + 1)))) (h' ! (?n0 + j)),
                               Empty_cache (device cfg)]) [0..<?N - 1])" .
  show ?thesis using out 2 3 4 5 6 by blast
qed

text \<open>A run of the reference orchestrator that returns, in terms of its inputs.\<close>

lemma morpho_align_ref_result:
  fixes eng :: "('a, 'it, 'vf, 'x, 'k, 'e) engine"
  assumes run: "morpho_align_ref eng tr ds cfg models models_ref h
                  = (Inr (out, out_ref, ps, ps_ref), h', lg)"
    and vm: "\<forall>m \<in> set models. m < length h" and vr: "valid_refs models_ref h"
  shows "\<exists>vs n1 n2 h5 lg0.
      reference_values ds cfg models models_ref h = Inr vs
    \<and> length h \<le> n1 \<and> n2 = n1 + length models
    \<and> out = [n1..<n1 + length models] \<and> out_ref = [n2..<n2 + length vs]
    \<and> (length models \<le> 1 \<or> length models \<le> length vs)
    \<and> length ps = length models - 1 \<and> ps_ref = ps
    \<and> (\<forall>k < length models. obsm (h ! (models ! k)) (spatial_key cfg) \<noteq> None
           \<and> h5 ! (n1 + k) = set_initial cfg (h ! (models ! k)))
    \<and> (\<forall>k < length vs. obsm (vs ! k) (spatial_key cfg) \<noteq> None
           \<and> h5 ! (n2 + k) = set_initial cfg (vs ! k))
    \<and> (\<forall>a. \<not> (n1 < a \<and> a < n1 + length models) \<and> \<not> (n2 < a \<and> a < n2 + length models)
           \<longrightarrow> h' ! a = h5 ! a)
    \<and> (\<forall>j. j + 1 < length models \<longrightarrow>
          (\<exists>r q nr d rg.
              eng (engine_args cfg) (set_initial cfg (vs ! (j + 1))) (h' ! (n2 + j)) = Inr r
            \<and> h' ! (n2 + j + 1) = attach cfg r (set_initial cfg (vs ! (j + 1)))
            \<and> obsm (h ! (models ! (j + 1))) (spatial_key cfg) = Some q
            \<and> tr (vecfld r) q (device cfg) (dtype cfg) = Inr (nr, d, rg)
            \<and> h' ! (n1 + j + 1)
                = attach_full cfg nr rg (save_uns cfg r (set_initial cfg (h ! (models ! (j + 1)))))
            \<and> ps ! j = P r))
    \<and> lg0 = (case models_ref of
               Some x \<Rightarrow> []
             | None \<Rightarrow> [Downsampling (map (\<lambda>m. h ! m) models) (n_sampling cfg)
                          (sampling_method cfg) (spatial_key cfg)])
    \<and> lg = lg0 @ ref_events eng cfg n1 n2 h5 h' (length models - 1)"
proof -
  let ?N = "length models"
  from morpho_align_ref_Inr [OF run] obtain mr h1 lg0 h3 h5 s where
    mk: "make_reference ds cfg models models_ref h = (Inr mr, h1, lg0)"
    and i1: "init_coords cfg [length h1..<length h1 + ?N] (h1 @ map (\<lambda>m. h1 ! m) models)
         = (None :: 'e error option, h3)"
    and i2: "init_coords cfg [length h3..<length h3 + length mr] (h3 @ map (\<lambda>m. h3 ! m) mr)
         = (None :: 'e error option, h5)"
    and l3: "length h3 = length h1 + ?N"
    and o: "out = [length h1..<length h1 + ?N]" "out_ref = [length h3..<length h3 + length mr]"
    and inv: "ref_inv eng tr cfg (length h1) (length h3) (length mr) h5 lg0 (?N - 1) s"
    and s: "heap s = h'" "log s = lg" "pis s = ps" "pis_ref s = ps_ref"
    by blast
  let ?vs = "map (\<lambda>m. h1 ! m) mr"
  let ?n1 = "length h1" and ?n2 = "length h3"
  note mr = make_reference_Inr [OF mk vr]
  note io = ref_initial_objects [OF mk i1 i2 vm vr]
  have 1: "reference_values ds cfg models models_ref h = Inr ?vs" by (rule mr(1))
  have 2: "length h \<le> ?n1" by (rule make_reference_frame(1) [OF mk])
  have 3: "?N \<le> 1 \<or> ?N \<le> length ?vs" using inv by (auto simp: ref_inv_def)
  have 4: "length ps = ?N - 1" "ps_ref = ps" using inv s by (simp_all add: ref_inv_def)
  have 5: "\<forall>k < ?N. obsm (h ! (models ! k)) (spatial_key cfg) \<noteq> None
           \<and> h5 ! (?n1 + k) = set_initial cfg (h ! (models ! k))"
    using io(1) by blast
  have 6: "\<forall>k < length ?vs. obsm (?vs ! k) (spatial_key cfg) \<noteq> None
           \<and> h5 ! (?n2 + k) = set_initial cfg (?vs ! k)"
    using io(2) by simp
  have 7: "\<forall>a. \<not> (?n1 < a \<and> a < ?n1 + ?N) \<and> \<not> (?n2 < a \<and> a < ?n2 + ?N) \<longrightarrow> h' ! a = h5 ! a"
  proof (intro allI impI)
    fix a assume "\<not> (?n1 < a \<and> a < ?n1 + ?N) \<and> \<not> (?n2 < a \<and> a < ?n2 + ?N)"
    then have "\<not> (?n1 < a \<and> a \<le> ?n1 + (?N - 1)) \<and> \<not> (?n2 < a \<and> a \<le> ?n2 + (?N - 1))"
      by auto
    then show "h' ! a = h5 ! a" using inv s(1) unfolding ref_inv_def by blast
  qed
  have 8: "\<exists>r q nr d rg.
              eng (engine_args cfg) (set_initial cfg (?vs ! (j + 1))) (h' ! (?n2 + j)) = Inr r
            \<and> h' ! (?n2 + j + 1) = attach cfg r (set_initial cfg (?vs ! (j + 1)))
            \<and> obsm (h ! (models ! (j + 1))) (spatial_key cfg) = Some q
            \<and> tr (vecfld r) q (device cfg) (dtype cfg) = Inr (nr, d, rg)
            \<and> h' ! (?n1 + j + 1)
                = attach_full cfg nr rg (save_uns cfg r (set_initial cfg (h ! (models ! (j + 1)))))
            \<and> ps ! j = P r" if j: "j + 1 < ?N" for j
  proof -
    have jN: "j < ?N - 1" using j by simp
    then obtain r q nr d rg where f:
      "eng (engine_args cfg) (h5 ! (?n2 + j + 1)) (heap s ! (?n2 + j)) = Inr r"
      "heap s ! (?n2 + j + 1) = attach cfg r (h5 ! (?n2 + j + 1))"
      "obsm (h5 ! (?n1 + j + 1)) (key_added cfg) = Some q"
      "tr (vecfld r) q (device cfg) (dtype cfg) = Inr (nr, d, rg)"
      "heap s ! (?n1 + j + 1) = attach_full cfg nr rg (save_uns cfg r (h5 ! (?n1 + j + 1)))"
      "pis s ! j = P r"
      using inv unfolding ref_inv_def by blast
    have jM: "j + 1 < length ?vs" using 3 j by auto
    have a: "h5 ! (?n2 + j + 1) = set_initial cfg (?vs ! (j + 1))"
      using 6 [rule_format, of "j + 1"] jM by (simp add: add.assoc)
    have b: "h5 ! (?n1 + j + 1) = set_initial cfg (h ! (models ! (j + 1)))"
      using 5 [rule_format, of "j + 1"] j by (simp add: add.assoc)
    have "obsm (h ! (models ! (j + 1))) (spatial_key cfg) = Some q"
      using f(3) b by (simp add: obsm_set_initial)
    then show ?thesis using f a b s by auto
  qed
  have 9: "lg = lg0 @ ref_events eng cfg ?n1 ?n2 h5 h' (?N - 1)"
    using inv s by (simp add: ref_inv_def)
  show ?thesis
    apply (rule exI [of _ ?vs], rule exI [of _ ?n1], rule exI [of _ ?n2], rule exI [of _ h5],
        rule exI [of _ lg0])
    using 1 2 l3 o 3 4 5 6 7 8 9 mr(3) by simp
qed


section \<open>Runs on the example inputs\<close>

lemma ex_eng_total: "\<forall>B A. \<exists>r. ex_eng args B A = Inr r"
  by (simp add: ex_eng_def Let_def)

lemma ex_tr_total: "\<forall>vf q. \<exists>res. ex_tr vf q dev dt = Inr res"
  by (simp add: ex_tr_def)

lemma ex_valid: "\<forall>m \<in> set [0, 1, 2]. m < length ex_heap"
  by (simp add: ex_heap_def)

lemma ex_keys: "\<forall>m \<in> set [0, 1, 2]. obsm (ex_heap ! m) (spatial_key (ex_cfg md)) \<noteq> None"
  by (simp add: ex_heap_def ex_sample_def ex_cfg_def)

lemma ex_run:
  "\<exists>out ps h' lg. morpho_align ex_eng (ex_cfg md) [0, 1, 2] ex_heap = (Inr (out, ps), h', lg)"
  using ex_eng_total ex_keys by (rule morpho_align_succeeds)

lemma ex_reference:
  "reference_values ex_ds (ex_cfg md) [0, 1, 2] None ex_heap
     = Inr [ex_sample 2 0, ex_sample 1 5, ex_sample 3 7]"
  by (simp add: reference_values_def ex_ds_def ex_cfg_def ex_heap_def ex_sample_def)

lemma ex_run_ref:
  "\<exists>out out_ref ps ps_ref h' lg.
     morpho_align_ref ex_eng ex_tr ex_ds (ex_cfg md) [0, 1, 2] None ex_heap
       = (Inr (out, out_ref, ps, ps_ref), h', lg)"
proof (rule morpho_align_ref_succeeds [OF ex_eng_total ex_tr_total ex_reference ex_valid _ ex_keys])
  show "valid_refs None ex_heap" by (simp add: valid_refs_def)
  show "\<forall>v \<in> set [ex_sample 2 0, ex_sample 1 5, ex_sample 3 7].
          obsm v (spatial_key (ex_cfg md)) \<noteq> None"
    by (simp add: ex_sample_def ex_cfg_def)
  show "length [0, 1, 2 :: nat] \<le> length [ex_sample 2 0, ex_sample 1 5, ex_sample 3 7]"
    by simp
qed

lemma ex_run_fail:
  "\<exists>res h' lg B A. morpho_align ex_eng_strict (ex_cfg ''SN-S'') [0, 1] ex_heap_empty
       = (res, h', lg)
     \<and> Register (engine_args (ex_cfg ''SN-S'')) 3 2 B A \<in> set lg
     \<and> ex_eng_strict (engine_args (ex_cfg ''SN-S'')) B A = Inl EmptyInput"
  by (simp add: morpho_align_def copy_models_def iteration_def align_step_def
      set_initial_def obsm_assign_def engine_args_def rigid_key_def nonrigid_key_def
      ex_eng_strict_def ex_cfg_def ex_heap_empty_def ex_sample_def Let_def)


section \<open>Claims about the orchestrators\<close>

text \<open>
  C1 (chain consistency of \<^verbatim>\<open>morpho_align\<close>). For a non-empty list of samples and
  either mode, a run that returns gives one output sample per input sample; the working,
  rigid and non-rigid coordinates of the first output sample all equal its original
  spatial coordinates; and for every \<open>k \<ge> 1\<close> the \<open>k\<close>-th output sample carries the
  rigid and non-rigid result of the registration of sample \<open>k\<close> against sample \<open>k - 1\<close>,
  its working coordinate being the rigid result in mode \<^verbatim>\<open>SN-S\<close> and the non-rigid
  result in mode \<^verbatim>\<open>SN-N\<close>.
\<close>

theorem chain_consistency:
  fixes eng :: "('a, 'it, 'vf, 'x, 'k, 'e) engine"
  assumes run: "morpho_align eng cfg models h = (Inr (out, ps), h', lg)"
    and ne: "models \<noteq> []"
    and md: "mode cfg = ''SN-S'' \<or> mode cfg = ''SN-N''"
  shows "length out = length models
    \<and> obsm (h ! (models ! 0)) (spatial_key cfg) \<noteq> None
    \<and> obsm (h' ! (out ! 0)) (key_added cfg) = obsm (h ! (models ! 0)) (spatial_key cfg)
    \<and> obsm (h' ! (out ! 0)) (rigid_key (key_added cfg)) = obsm (h ! (models ! 0)) (spatial_key cfg)
    \<and> obsm (h' ! (out ! 0)) (nonrigid_key (key_added cfg))
        = obsm (h ! (models ! 0)) (spatial_key cfg)
    \<and> (\<forall>k. 0 < k \<and> k < length out \<longrightarrow>
          (\<exists>B A r. Register (engine_args cfg) (out ! k) (out ! (k - 1)) B A \<in> set lg
             \<and> eng (engine_args cfg) B A = Inr r
             \<and> obsm (h' ! (out ! k)) (rigid_key (key_added cfg)) = Some (optimal_RnA r)
             \<and> obsm (h' ! (out ! k)) (nonrigid_key (key_added cfg)) = Some (XAHat r)
             \<and> obsm (h' ! (out ! k)) (key_added cfg)
                 = (if mode cfg = ''SN-S'' then Some (optimal_RnA r) else Some (XAHat r))))"
proof -
  let ?n0 = "length h" and ?N = "length models"
  from morpho_align_Inr [OF run] obtain h2 where
    init: "init_coords cfg [?n0..<?n0 + ?N] (h @ map (\<lambda>m. h ! m) models)
             = (None :: 'e error option, h2)"
    and out: "out = [?n0..<?n0 + ?N]"
    and inv: "seq_inv eng cfg ?n0 h2 (?N - 1) \<lparr>heap = h', log = lg, pis = ps\<rparr>"
    by blast
  have N: "0 < ?N" using ne by simp
  have first: "h' ! ?n0 = h2 ! ?n0" using inv by (simp add: seq_inv_def)
  have h20: "h2 ! (?n0 + 0) = set_initial cfg (h ! (models ! 0))
      \<and> obsm (h ! (models ! 0)) (spatial_key cfg) \<noteq> None"
    using init_after_copy(3) [OF init refl N] .
  have out0: "out ! 0 = ?n0" using out N by simp
  have 1: "length out = ?N" using out by simp
  have 2: "obsm (h ! (models ! 0)) (spatial_key cfg) \<noteq> None" using h20 by simp
  have s0: "h' ! (out ! 0) = set_initial cfg (h ! (models ! 0))"
    using out0 first h20 by simp
  have 3: "\<exists>B A r. Register (engine_args cfg) (out ! k) (out ! (k - 1)) B A \<in> set lg
             \<and> eng (engine_args cfg) B A = Inr r
             \<and> obsm (h' ! (out ! k)) (rigid_key (key_added cfg)) = Some (optimal_RnA r)
             \<and> obsm (h' ! (out ! k)) (nonrigid_key (key_added cfg)) = Some (XAHat r)
             \<and> obsm (h' ! (out ! k)) (key_added cfg)
                 = (if mode cfg = ''SN-S'' then Some (optimal_RnA r) else Some (XAHat r))"
    if k: "0 < k \<and> k < length out" for k
  proof -
    obtain j where j: "k = Suc j" using k by (cases k) auto
    have jN: "j < ?N - 1" using k j 1 by simp
    then obtain r where r: "eng (engine_args cfg) (h2 ! (?n0 + j + 1)) (h' ! (?n0 + j)) = Inr r"
      and at: "h' ! (?n0 + j + 1) = attach cfg r (h2 ! (?n0 + j + 1))"
      using inv unfolding seq_inv_def by fastforce
    have ok: "out ! k = ?n0 + j + 1" "out ! (k - 1) = ?n0 + j" using out j k by simp_all
    have "lg = seq_events cfg ?n0 h2 h' (?N - 1)" using inv by (simp add: seq_inv_def)
    then have "Register (engine_args cfg) (?n0 + j + 1) (?n0 + j) (h2 ! (?n0 + j + 1))
                 (h' ! (?n0 + j)) \<in> set lg"
      using jN by (auto simp: seq_events_def)
    then show ?thesis
      using r at ok md
      by (auto simp: obsm_attach_rigid obsm_attach_nonrigid obsm_attach_working)
  qed
  show ?thesis using 1 2 3 s0 by (simp add: obsm_set_initial)
qed

theorem chain_consistency_witness:
  "\<exists>out ps h' lg. morpho_align ex_eng (ex_cfg ''SN-S'') [0, 1, 2] ex_heap = (Inr (out, ps), h', lg)
     \<and> [0, 1, 2 :: nat] \<noteq> []
     \<and> mode (ex_cfg ''SN-S'') = ''SN-S''
     \<and> length out = 3
     \<and> obsm (h' ! (out ! 0)) ''align_spatial'' = obsm (ex_heap ! 0) ''spatial''
     \<and> obsm (h' ! (out ! 1)) ''align_spatial'' = obsm (h' ! (out ! 1)) ''align_spatial_rigid''
     \<and> obsm (h' ! (out ! 2)) ''align_spatial'' = obsm (h' ! (out ! 2)) ''align_spatial_rigid''"
proof -
  obtain out ps h' lg where
    run: "morpho_align ex_eng (ex_cfg ''SN-S'') [0, 1, 2] ex_heap = (Inr (out, ps), h', lg)"
    using ex_run by blast
  have md: "mode (ex_cfg ''SN-S'') = ''SN-S'' \<or> mode (ex_cfg ''SN-S'') = ''SN-N''"
    by (simp add: ex_cfg_def)
  have ne: "[0, 1, 2 :: nat] \<noteq> []" by simp
  note c = chain_consistency [OF run ne md]
  have k: "key_added (ex_cfg ''SN-S'') = ''align_spatial''"
    "spatial_key (ex_cfg ''SN-S'') = ''spatial''" "mode (ex_cfg ''SN-S'') = ''SN-S''"
    by (simp_all add: ex_cfg_def)
  from c have l: "length out = 3" by simp
  from c have c0: "obsm (h' ! (out ! 0)) ''align_spatial'' = obsm (ex_heap ! 0) ''spatial''"
    by (simp add: k)
  from c have ck: "\<forall>k. 0 < k \<and> k < 3 \<longrightarrow>
      obsm (h' ! (out ! k)) ''align_spatial'' = obsm (h' ! (out ! k)) ''align_spatial_rigid''"
    by (auto simp: k rigid_key_def)
  from ck [rule_format, of 1] ck [rule_format, of 2]
  have "obsm (h' ! (out ! 1)) ''align_spatial'' = obsm (h' ! (out ! 1)) ''align_spatial_rigid''"
    "obsm (h' ! (out ! 2)) ''align_spatial'' = obsm (h' ! (out ! 2)) ''align_spatial_rigid''"
    by simp_all
  then show ?thesis using run c0 l k(3) by blast
qed

text \<open>
  C5 (no mutation of the inputs). Whatever \<^verbatim>\<open>morpho_align\<close> or \<^verbatim>\<open>morpho_align_ref\<close>
  does, returning or raising, every object that was allocated before the call (the input
  samples among them, with their coordinate arrays) is afterwards what it was before; and
  the samples that a call returns are objects allocated by that call.
\<close>

theorem inputs_not_mutated:
  fixes eng :: "('a, 'it, 'vf, 'x, 'k, 'e) engine"
  shows "take (length h) (fst (snd (morpho_align eng cfg models h))) = h
    \<and> take (length h) (fst (snd (morpho_align_ref eng tr ds cfg models models_ref h))) = h
    \<and> (\<forall>out ps. fst (morpho_align eng cfg models h) = Inr (out, ps)
          \<longrightarrow> (\<forall>a \<in> set out. length h \<le> a))
    \<and> (\<forall>out out_ref ps ps_ref.
          fst (morpho_align_ref eng tr ds cfg models models_ref h) = Inr (out, out_ref, ps, ps_ref)
          \<longrightarrow> (\<forall>a \<in> set out \<union> set out_ref. length h \<le> a))"
proof -
  obtain res h' lg where run: "morpho_align eng cfg models h = (res, h', lg)"
    by (cases "morpho_align eng cfg models h") auto
  obtain res2 h2' lg2 where
    run2: "morpho_align_ref eng tr ds cfg models models_ref h = (res2, h2', lg2)"
    by (cases "morpho_align_ref eng tr ds cfg models models_ref h") auto
  have 1: "take (length h) h' = h"
    using morpho_align_frame [OF run] by (intro prefix_take) simp_all
  have 2: "take (length h) h2' = h"
    using morpho_align_ref_frame [OF run2] by (intro prefix_take) simp_all
  have 3: "\<forall>a \<in> set out. length h \<le> a" if "res = Inr (out, ps)" for out ps
    using morpho_align_Inr [OF run [unfolded that]] by auto
  have 4: "\<forall>a \<in> set out \<union> set out_ref. length h \<le> a"
    if r: "res2 = Inr (out, out_ref, ps, ps_ref)" for out out_ref ps ps_ref
  proof -
    from morpho_align_ref_Inr [OF run2 [unfolded r]] obtain mr h1 lg0 h3 h5 s where
      mk: "make_reference ds cfg models models_ref h = (Inr mr, h1, lg0)"
      and "init_coords cfg [length h1..<length h1 + length models]
             (h1 @ map (\<lambda>m. h1 ! m) models) = (None :: 'e error option, h3)"
      and l3: "length h3 = length h1 + length models"
      and o: "out = [length h1..<length h1 + length models]"
        "out_ref = [length h3..<length h3 + length mr]"
      by blast
    show ?thesis using make_reference_frame(1) [OF mk] l3 o by auto
  qed
  show ?thesis using 1 2 3 4 by (simp add: run run2)
qed

theorem inputs_not_mutated_witness:
  "\<exists>out ps out2 out_ref ps2 ps_ref.
     fst (morpho_align ex_eng (ex_cfg ''SN-S'') [0, 1, 2] ex_heap) = Inr (out, ps)
   \<and> fst (morpho_align_ref ex_eng ex_tr ex_ds (ex_cfg ''SN-S'') [0, 1, 2] None ex_heap)
       = Inr (out2, out_ref, ps2, ps_ref)
   \<and> (\<forall>a \<in> set out. 3 \<le> a) \<and> (\<forall>a \<in> set out2 \<union> set out_ref. 3 \<le> a)
   \<and> take 3 (fst (snd (morpho_align ex_eng (ex_cfg ''SN-S'') [0, 1, 2] ex_heap))) = ex_heap
   \<and> take 3 (fst (snd (morpho_align_ref ex_eng ex_tr ex_ds (ex_cfg ''SN-S'') [0, 1, 2] None
        ex_heap))) = ex_heap"
proof -
  obtain out ps h' lg where
    run: "morpho_align ex_eng (ex_cfg ''SN-S'') [0, 1, 2] ex_heap = (Inr (out, ps), h', lg)"
    using ex_run by blast
  obtain out2 out_ref ps2 ps_ref h2' lg2 where
    run2: "morpho_align_ref ex_eng ex_tr ex_ds (ex_cfg ''SN-S'') [0, 1, 2] None ex_heap
       = (Inr (out2, out_ref, ps2, ps_ref), h2', lg2)"
    using ex_run_ref by blast
  have l: "length ex_heap = 3" by (simp add: ex_heap_def)
  note c = inputs_not_mutated [of ex_heap ex_eng "ex_cfg ''SN-S''" "[0, 1, 2]" ex_tr ex_ds None]
  have f1: "fst (morpho_align ex_eng (ex_cfg ''SN-S'') [0, 1, 2] ex_heap) = Inr (out, ps)"
    by (simp only: run fst_conv)
  have f2: "fst (morpho_align_ref ex_eng ex_tr ex_ds (ex_cfg ''SN-S'') [0, 1, 2] None ex_heap)
       = Inr (out2, out_ref, ps2, ps_ref)"
    by (simp only: run2 fst_conv)
  have 1: "\<forall>a \<in> set out. 3 \<le> a" using c f1 unfolding l by blast
  have 2: "\<forall>a \<in> set out2 \<union> set out_ref. 3 \<le> a" using c f2 unfolding l by blast
  have 3: "take 3 (fst (snd (morpho_align ex_eng (ex_cfg ''SN-S'') [0, 1, 2] ex_heap))) = ex_heap"
    using c unfolding l by blast
  have 4: "take 3 (fst (snd (morpho_align_ref ex_eng ex_tr ex_ds (ex_cfg ''SN-S'') [0, 1, 2] None
        ex_heap))) = ex_heap"
    using c unfolding l by blast
  show ?thesis using f1 f2 1 2 3 4 by blast
qed

text \<open>
  C7 (no partial output). If a registration that \<^verbatim>\<open>morpho_align\<close> has called raises, then
  \<^verbatim>\<open>morpho_align\<close> raises that exception instead of returning samples and matrices, the
  failed call is the last thing it has done, and every object allocated before the call
  is unchanged.
\<close>

theorem failure_aborts_chain:
  fixes eng :: "('a, 'it, 'vf, 'x, 'k, 'e) engine"
  assumes run: "morpho_align eng cfg models h = (res, h', lg)"
    and ev: "Register args b a B A \<in> set lg"
    and fail: "eng args B A = Inl e"
  shows "res = Inl (Raised e) \<and> take (length h) h' = h \<and> last lg = Register args b a B A"
proof -
  have frame: "take (length h) h' = h"
    using morpho_align_frame [OF run] by (intro prefix_take) simp_all
  show ?thesis
  proof (cases res)
    case (Inr p)
    obtain out ps where p: "p = (out, ps)" by (cases p)
    from morpho_align_Inr [OF run [unfolded Inr p]] obtain h2 where
      inv: "seq_inv eng cfg (length h) h2 (length models - 1)
              \<lparr>heap = h', log = lg, pis = ps\<rparr>"
      by blast
    then have lg: "lg = seq_events cfg (length h) h2 h' (length models - 1)"
      by (simp add: seq_inv_def)
    from ev [unfolded lg Register_in_seq_events] obtain j where
      j: "j < length models - 1" "args = engine_args cfg" "B = h2 ! (length h + j + 1)"
      "A = h' ! (length h + j)"
      by blast
    from inv j(1) obtain r where
      "eng (engine_args cfg) (h2 ! (length h + j + 1)) (h' ! (length h + j)) = Inr r"
      unfolding seq_inv_def by fastforce
    then have False using fail j by simp
    then show ?thesis ..
  next
    case (Inl e1)
    from morpho_align_Inl [OF run [unfolded Inl]] show ?thesis
    proof (elim disjE conjE exE)
      assume "lg = []"
      then show ?thesis using ev by simp
    next
      fix h2 i s e0
      assume inv: "seq_inv eng cfg (length h) h2 i s"
        and e1: "e1 = Raised e0"
        and f0: "eng (engine_args cfg) (h2 ! (length h + i + 1)) (heap s ! (length h + i)) = Inl e0"
        and lg: "lg = log s @ [Register (engine_args cfg) (length h + i + 1) (length h + i)
                            (h2 ! (length h + i + 1)) (heap s ! (length h + i))]"
      have "Register args b a B A \<notin> set (log s)"
      proof
        assume "Register args b a B A \<in> set (log s)"
        then have "Register args b a B A \<in> set (seq_events cfg (length h) h2 (heap s) i)"
          using inv by (simp add: seq_inv_def)
        then obtain j where
          j: "j < i" "args = engine_args cfg" "B = h2 ! (length h + j + 1)"
          "A = heap s ! (length h + j)"
          unfolding Register_in_seq_events by blast
        from inv j(1) obtain r where
          "eng (engine_args cfg) (h2 ! (length h + j + 1)) (heap s ! (length h + j)) = Inr r"
          unfolding seq_inv_def by fastforce
        then show False using fail j by simp
      qed
      then have same: "Register args b a B A
          = Register (engine_args cfg) (length h + i + 1) (length h + i)
              (h2 ! (length h + i + 1)) (heap s ! (length h + i))"
        using ev lg by simp
      then have "e = e0" using fail f0 by simp
      then show ?thesis using Inl e1 frame lg same by simp
    qed
  qed
qed

theorem failure_aborts_chain_witness:
  "\<exists>res h' lg B A. morpho_align ex_eng_strict (ex_cfg ''SN-S'') [0, 1] ex_heap_empty
       = (res, h', lg)
     \<and> Register (engine_args (ex_cfg ''SN-S'')) 3 2 B A \<in> set lg
     \<and> ex_eng_strict (engine_args (ex_cfg ''SN-S'')) B A = Inl EmptyInput
     \<and> res = Inl (Raised EmptyInput)
     \<and> take (length ex_heap_empty) h' = ex_heap_empty
     \<and> last lg = Register (engine_args (ex_cfg ''SN-S'')) 3 2 B A"
proof -
  obtain res h' lg B A where
    run: "morpho_align ex_eng_strict (ex_cfg ''SN-S'') [0, 1] ex_heap_empty = (res, h', lg)"
    and ev: "Register (engine_args (ex_cfg ''SN-S'')) 3 2 B A \<in> set lg"
    and fail: "ex_eng_strict (engine_args (ex_cfg ''SN-S'')) B A = Inl EmptyInput"
    using ex_run_fail by blast
  from failure_aborts_chain [OF run ev fail] show ?thesis using run ev fail by blast
qed

end
